theory Spec2Isabelle
  imports Main "HOL-Library.Char_ord" "HOL-Library.List_Lexorder"
begin

section \<open>JavaScript values used by the backend\<close>

text \<open>
  Strings are \<open>string\<close>; their order (\<open>\<le>\<close> on identifiers, Prisma's \<open>lte\<close> and \<open>gt\<close>)
  is the lexicographic order on character codes. Numbers that the code only counts with
  are \<open>nat\<close> or \<open>int\<close>. A value that may be \<open>undefined\<close> or \<open>null\<close> is an \<open>option\<close>.
\<close>

text \<open>\<open>s.includes(sub)\<close>: \<open>sub\<close> occurs in \<open>s\<close> as a contiguous substring.\<close>

fun str_includes :: "string \<Rightarrow> string \<Rightarrow> bool" where
  "str_includes [] sub = (sub = [])"
| "str_includes (c # cs) sub = (take (length sub) (c # cs) = sub \<or> str_includes cs sub)"

text \<open>The decimal rendering of a non-negative integer inside a template literal.\<close>

definition digit :: "nat \<Rightarrow> char" where
  "digit d = ''0123456789'' ! d"

function string_of_nat :: "nat \<Rightarrow> string" where
  "string_of_nat n =
     (if n < 10 then [digit n] else string_of_nat (n div 10) @ [digit (n mod 10)])"
  by pat_completeness auto
termination
  by (relation "measure id") auto

declare string_of_nat.simps [simp del]

text \<open>\<open>xs.join(sep)\<close>.\<close>

fun join :: "string \<Rightarrow> string list \<Rightarrow> string" where
  "join sep [] = []"
| "join sep [x] = x"
| "join sep (x # y # ys) = x @ sep @ join sep (y # ys)"

text \<open>
  Truthiness of an optional string: \<open>undefined\<close>, \<open>null\<close> and the empty string are falsy.
\<close>

fun truthy :: "string option \<Rightarrow> bool" where
  "truthy None = False"
| "truthy (Some s) = (s \<noteq> [])"

text \<open>\<open>a || b\<close> on optional strings.\<close>

definition or_else :: "string option \<Rightarrow> string option \<Rightarrow> string option" where
  "or_else a b = (if truthy a then a else b)"

text \<open>
  \<open>n || d\<close> on an optional number: \<open>undefined\<close> and \<open>0\<close> are falsy (so is \<open>NaN\<close>, which
  \<open>parseInt\<close> can produce and which is \<open>None\<close> here).
\<close>

fun or_default :: "int option \<Rightarrow> int \<Rightarrow> int" where
  "or_default None d = d"
| "or_default (Some n) d = (if n = 0 then d else n)"

subsection \<open>Thrown values\<close>

text \<open>
  An error object with its \<open>name\<close> and \<open>message\<close>; \<open>zod\<close> holds the issue list exactly
  when the object is an instance of \<open>ZodError\<close>.
\<close>

record js_error =
  name :: string
  message :: string
  zod :: "string list option"

definition Error :: "string \<Rightarrow> js_error" where
  "Error msg = \<lparr>name = ''Error'', message = msg, zod = None\<rparr>"

text \<open>What \<open>fetch\<close> rejects with when \<open>controller.abort()\<close> has fired.\<close>

definition AbortError :: js_error where
  "AbortError = \<lparr>name = ''AbortError'', message = ''This operation was aborted'', zod = None\<rparr>"

section \<open>The completion adapters (\<open>services/llm\<close>)\<close>

datatype role = User | Assistant

fun role_string :: "role \<Rightarrow> string" where
  "role_string User = ''user''"
| "role_string Assistant = ''assistant''"

text \<open>\<open>Message\<close> of \<open>types.ts\<close>.\<close>

record llm_message =
  role :: role
  content :: string

text \<open>\<open>messages.map((m) => `${m.role}: ${m.content}`).join("\n")\<close>\<close>

definition prompt :: "'a llm_message_scheme list \<Rightarrow> string" where
  "prompt messages = join [CHR 0x0A] (map (\<lambda>m. role_string (role m) @ '': '' @ content m) messages)"

text \<open>The fields both adapter classes hold; the Ollama adapter adds \<open>model\<close>.\<close>

record adapter =
  baseUrl :: string
  timeout :: int
  maxRetries :: int
  retryDelayMs :: int

record ollama_adapter = adapter +
  model :: string

text \<open>The constructors' \<open>config\<close> argument: the three numbers are optional.\<close>

record adapter_config =
  config_baseUrl :: string
  config_timeout :: "int option"
  config_maxRetries :: "int option"
  config_retryDelayMs :: "int option"

record ollama_config = adapter_config +
  config_model :: string

definition MockLlmAdapter :: "adapter_config \<Rightarrow> adapter" where
  "MockLlmAdapter config =
     \<lparr>baseUrl = config_baseUrl config,
      timeout = or_default (config_timeout config) 12000,
      maxRetries = or_default (config_maxRetries config) 2,
      retryDelayMs = or_default (config_retryDelayMs config) 1000\<rparr>"

definition OllamaLlmAdapter :: "ollama_config \<Rightarrow> ollama_adapter" where
  "OllamaLlmAdapter config =
     \<lparr>baseUrl = config_baseUrl config,
      timeout = or_default (config_timeout config) 12000,
      maxRetries = or_default (config_maxRetries config) 2,
      retryDelayMs = or_default (config_retryDelayMs config) 1000,
      model = config_model config\<rparr>"

subsection \<open>One attempt\<close>

text \<open>
  What the network does on one attempt is an input of the model. \<open>fetch\<close> either rejects
  (a network failure, or \<open>AbortError\<close> when the attempt's own timer called
  \<open>controller.abort()\<close>; the adapters pass no other signal) or resolves with a status and
  a body; \<open>response.json()\<close> on that body either rejects or resolves with an object, of
  which the adapters read the fields \<open>response\<close> and \<open>completion\<close>.
\<close>

record reply =
  response :: "string option"
  completion :: "string option"

datatype json_result = JsonRejects js_error | JsonResolves reply

datatype fetch_result = FetchRejects js_error | FetchResolves nat json_result

text \<open>\<open>response.ok\<close>\<close>

definition ok :: "nat \<Rightarrow> bool" where
  "ok status = (200 \<le> status \<and> status \<le> 299)"

text \<open>
  The \<open>try\<close> block of \<open>MockLlmAdapter.fetchWithRetry\<close>: the value it returns, or what
  it throws into the \<open>catch\<close>.
\<close>

definition mock_attempt :: "fetch_result \<Rightarrow> js_error + string option" where
  "mock_attempt r =
     (case r of
        FetchRejects e \<Rightarrow> Inl e
      | FetchResolves status body \<Rightarrow>
          if \<not> ok status then Inl (Error (''Mock LLM returned '' @ string_of_nat status))
          else (case body of
                  JsonRejects e \<Rightarrow> Inl e
                | JsonResolves data \<Rightarrow> Inr (completion data)))"

text \<open>The \<open>try\<close> block of \<open>OllamaLlmAdapter.fetchWithRetry\<close>.\<close>

definition ollama_attempt :: "fetch_result \<Rightarrow> js_error + string option" where
  "ollama_attempt r =
     (case r of
        FetchRejects e \<Rightarrow> Inl e
      | FetchResolves status body \<Rightarrow>
          if \<not> ok status then Inl (Error (''Ollama returned '' @ string_of_nat status))
          else (case body of
                  JsonRejects e \<Rightarrow> Inl e
                | JsonResolves data \<Rightarrow>
                    (let completion = or_else (response data) (completion data)
                     in if \<not> truthy completion
                        then Inl (Error ''Ollama response missing completion field'')
                        else Inr completion)))"

subsection \<open>The retry loop\<close>

definition isTimeout :: "js_error \<Rightarrow> bool" where
  "isTimeout error = (name error = ''AbortError'')"

definition is500Error :: "js_error \<Rightarrow> bool" where
  "is500Error error = str_includes (message error) ''500''"

text \<open>
  The \<open>catch\<close> block, the same text in both classes. The result is what the promise
  settles with, together with the delays slept before the retries, in order.
  \<open>attemptOnce\<close> is the class's \<open>try\<close> block and \<open>backend k\<close> what the network does on
  attempt \<open>k\<close>.
\<close>

function fetchWithRetry ::
  "(fetch_result \<Rightarrow> js_error + 'r) \<Rightarrow> 'a adapter_scheme \<Rightarrow> (nat \<Rightarrow> fetch_result) \<Rightarrow> nat
     \<Rightarrow> (js_error + 'r) \<times> int list" where
  "fetchWithRetry attemptOnce a backend attempt =
     (case attemptOnce (backend attempt) of
        Inr result \<Rightarrow> (Inr result, [])
      | Inl error \<Rightarrow>
          if (isTimeout error \<or> is500Error error) \<and> int attempt < maxRetries a
          then (let delay = retryDelayMs a * 2 ^ attempt;
                    rest = fetchWithRetry attemptOnce a backend (attempt + 1)
                in (fst rest, delay # snd rest))
          else (Inl error, []))"
  by pat_completeness auto
termination
  by (relation "measure (\<lambda>(attemptOnce, a, backend, attempt). nat (maxRetries a - int attempt))") auto

declare fetchWithRetry.simps [simp del]

text \<open>
  \<open>complete\<close> of each class. The network is given the request's payload: the joined
  prompt, and for Ollama the model name with it.
\<close>

definition MockLlmAdapter_complete ::
  "adapter \<Rightarrow> (string \<Rightarrow> nat \<Rightarrow> fetch_result) \<Rightarrow> 'm llm_message_scheme list
     \<Rightarrow> (js_error + string option) \<times> int list" where
  "MockLlmAdapter_complete a network messages =
     fetchWithRetry mock_attempt a (network (prompt messages)) 0"

definition OllamaLlmAdapter_complete ::
  "ollama_adapter \<Rightarrow> (string \<times> string \<Rightarrow> nat \<Rightarrow> fetch_result) \<Rightarrow> 'm llm_message_scheme list
     \<Rightarrow> (js_error + string option) \<times> int list" where
  "OllamaLlmAdapter_complete a network messages =
     fetchWithRetry ollama_attempt a (network (model a, prompt messages)) 0"

subsection \<open>The caller's input\<close>

text \<open>
  \<open>complete(input: { messages: Message[] })\<close>: the declared input has one property.
  An object that carries more, such as a cancellation signal, is an extension of this
  record; \<open>complete\<close> reads \<open>input.messages\<close>, in both classes.
\<close>

record complete_input =
  input_messages :: "llm_message list"

text \<open>
  A cancellation signal as a caller would supply it: the attempt during which the caller
  triggers it, if it ever does.
\<close>

datatype abort_signal = AbortSignal "nat option"

record cancellable_input = complete_input +
  signal :: abort_signal

definition MockLlmAdapter_complete_input ::
  "adapter \<Rightarrow> (string \<Rightarrow> nat \<Rightarrow> fetch_result) \<Rightarrow> 'x complete_input_scheme
     \<Rightarrow> (js_error + string option) \<times> int list" where
  "MockLlmAdapter_complete_input a network input =
     MockLlmAdapter_complete a network (input_messages input)"

definition OllamaLlmAdapter_complete_input ::
  "ollama_adapter \<Rightarrow> (string \<times> string \<Rightarrow> nat \<Rightarrow> fetch_result) \<Rightarrow> 'x complete_input_scheme
     \<Rightarrow> (js_error + string option) \<times> int list" where
  "OllamaLlmAdapter_complete_input a network input =
     OllamaLlmAdapter_complete a network (input_messages input)"

section \<open>The store (Prisma over PostgreSQL)\<close>

text \<open>
  The two tables of the migration, rows in insertion order. A timestamp is the number of
  milliseconds of a \<open>Date\<close>; \<open>toISOString()\<close> prints that same instant and is left out.
  The row of a message carries the adapter's \<open>role\<close> and \<open>content\<close> and adds the rest.
\<close>

record message = llm_message +
  mid :: string
  conversationId :: string
  createdAt :: nat

record conversation =
  cid :: string
  title :: string
  conv_createdAt :: nat
  lastMessageAt :: "nat option"

record db =
  conversation_table :: "conversation list"
  message_table :: "message list"

text \<open>
  The identifier (\<open>@default(cuid())\<close>) and the timestamp (\<open>@default(now())\<close>) that the
  store gives a created row are chosen outside the repository's code: they are an input.
\<close>

type_synonym stamp = "string \<times> nat"

text \<open>\<open>findUnique({ where: { id } })\<close>\<close>

definition conversation_findUnique :: "db \<Rightarrow> string \<Rightarrow> conversation option" where
  "conversation_findUnique d i = find (\<lambda>c. cid c = i) (conversation_table d)"

text \<open>
  \<open>orderBy: { createdAt: 'asc' }\<close> and \<open>'desc'\<close>. The query names no second key, so the
  database is free in the order of rows with equal timestamps; PostgreSQL returns them
  as it finds them in the table, and this model keeps them in insertion order, ascending
  and descending alike.
\<close>

definition orderBy_createdAt_asc :: "message list \<Rightarrow> message list" where
  "orderBy_createdAt_asc rows = sort_key createdAt rows"

definition orderBy_createdAt_desc :: "message list \<Rightarrow> message list" where
  "orderBy_createdAt_desc rows = rev (sort_key createdAt (rev rows))"

text \<open>
  \<open>prisma.message.create\<close>. A \<open>content\<close> that is \<open>undefined\<close> is a missing required
  argument, which Prisma rejects before it writes.
\<close>

definition PrismaClientValidationError :: js_error where
  "PrismaClientValidationError =
     \<lparr>name = ''PrismaClientValidationError'', message = ''Argument `content` is missing.'',
      zod = None\<rparr>"

definition message_create ::
  "db \<Rightarrow> stamp \<Rightarrow> string \<Rightarrow> role \<Rightarrow> string option \<Rightarrow> js_error + db \<times> message" where
  "message_create d s conv r c =
     (case c of
        None \<Rightarrow> Inl PrismaClientValidationError
      | Some str \<Rightarrow>
          (let row = \<lparr>role = r, content = str, mid = fst s, conversationId = conv,
                      createdAt = snd s\<rparr>
           in Inr (d\<lparr>message_table := message_table d @ [row]\<rparr>, row)))"

text \<open>\<open>prisma.conversation.update({ where: { id }, data: { lastMessageAt } })\<close>\<close>

definition conversation_update_lastMessageAt :: "db \<Rightarrow> string \<Rightarrow> nat \<Rightarrow> db" where
  "conversation_update_lastMessageAt d i t =
     d\<lparr>conversation_table :=
         map (\<lambda>c. if cid c = i then c\<lparr>lastMessageAt := Some t\<rparr> else c) (conversation_table d)\<rparr>"

text \<open>
  \<open>prisma.conversation.delete\<close>: Prisma throws its error P2025 when no row has the
  identifier; the foreign key's \<open>ON DELETE CASCADE\<close> removes the conversation's messages.
\<close>

definition PrismaRecordNotFound :: js_error where
  "PrismaRecordNotFound =
     \<lparr>name = ''PrismaClientKnownRequestError'',
      message = ''An operation failed because it depends on one or more records that were required but not found. Record to delete does not exist.'',
      zod = None\<rparr>"

definition conversation_delete :: "db \<Rightarrow> string \<Rightarrow> js_error + db" where
  "conversation_delete d i =
     (case conversation_findUnique d i of
        None \<Rightarrow> Inl PrismaRecordNotFound
      | Some c \<Rightarrow>
          Inr \<lparr>conversation_table = filter (\<lambda>c. cid c \<noteq> i) (conversation_table d),
               message_table = filter (\<lambda>m. conversationId m \<noteq> i) (message_table d)\<rparr>)"

section \<open>\<open>ConversationService\<close>\<close>

text \<open>
  The service's own state is its counter; the adapter it holds is a function from the
  history to what \<open>complete\<close> settles with.
\<close>

record service =
  conversationCounter :: nat

type_synonym llm = "llm_message list \<Rightarrow> js_error + string option"

text \<open>
  The constructor leaves the counter at its initial 0 and starts \<open>initCounter\<close> without
  awaiting it. \<open>initCounter\<close> runs in two steps with other requests in between: the
  store answers \<open>prisma.conversation.count()\<close>, and later the assignment after the
  \<open>await\<close> stores that answer in the counter.
\<close>

definition ConversationService :: service where
  "ConversationService = \<lparr>conversationCounter = 0\<rparr>"

definition conversation_count :: "db \<Rightarrow> nat" where
  "conversation_count d = length (conversation_table d)"

definition initCounter :: "service \<Rightarrow> nat \<Rightarrow> service" where
  "initCounter svc count = svc\<lparr>conversationCounter := count\<rparr>"

definition createConversation :: "service \<Rightarrow> db \<Rightarrow> stamp \<Rightarrow> service \<times> db \<times> conversation" where
  "createConversation svc d s =
     (let counter = conversationCounter svc + 1;
          title = ''Conversation #'' @ string_of_nat counter;
          conversation = \<lparr>cid = fst s, title = title, conv_createdAt = snd s,
                           lastMessageAt = None\<rparr>
      in (svc\<lparr>conversationCounter := counter\<rparr>,
          d\<lparr>conversation_table := conversation_table d @ [conversation]\<rparr>,
          conversation))"

record conversation_summary =
  summary_id :: string
  summary_title :: string
  summary_createdAt :: nat
  summary_lastMessageAt :: "nat option"

definition listConversations :: "db \<Rightarrow> conversation_summary list" where
  "listConversations d =
     map (\<lambda>conv.
            \<lparr>summary_id = cid conv, summary_title = title conv,
             summary_createdAt = conv_createdAt conv,
             summary_lastMessageAt =
               (case take 1 (orderBy_createdAt_desc
                               (filter (\<lambda>m. conversationId m = cid conv) (message_table d))) of
                  [] \<Rightarrow> None
                | m # _ \<Rightarrow> Some (createdAt m))\<rparr>)
         (rev (sort_key conv_createdAt (conversation_table d)))"

subsection \<open>\<open>getConversation\<close>\<close>

record message_view =
  view_id :: string
  view_role :: role
  view_content :: string
  view_createdAt :: nat

definition view :: "message \<Rightarrow> message_view" where
  "view msg = \<lparr>view_id = mid msg, view_role = role msg, view_content = content msg,
               view_createdAt = createdAt msg\<rparr>"

record page_info =
  nextCursor :: "string option"
  prevCursor :: "string option"

record conversation_page =
  page_id :: string
  page_title :: string
  page_messages :: "message_view list"
  pageInfo :: page_info

text \<open>\<open>where.id = { lte: messagesCursor }\<close>, set only when the cursor is truthy.\<close>

definition where_lte :: "string option \<Rightarrow> message \<Rightarrow> bool" where
  "where_lte messagesCursor m =
     (case messagesCursor of
        None \<Rightarrow> True
      | Some c \<Rightarrow> if c = [] then True else mid m \<le> c)"

text \<open>
  \<open>id: { gt: pageMessages[pageMessages.length - 1]?.id }\<close>: on an empty page the bound is
  \<open>undefined\<close>, which Prisma reads as no condition.
\<close>

definition where_gt :: "message list \<Rightarrow> message \<Rightarrow> bool" where
  "where_gt pageMessages m =
     (case pageMessages of
        [] \<Rightarrow> True
      | _ # _ \<Rightarrow> mid (last pageMessages) < mid m)"

text \<open>\<open>limit\<close> is a natural number here: the route parses it from the query string.\<close>

definition getConversation ::
  "db \<Rightarrow> string \<Rightarrow> string option \<Rightarrow> nat \<Rightarrow> js_error + conversation_page" where
  "getConversation d i messagesCursor limit =
     (case conversation_findUnique d i of
        None \<Rightarrow> Inl (Error ''Conversation not found'')
      | Some conversation \<Rightarrow>
          (let messages =
                 take (limit + 1)
                   (orderBy_createdAt_desc
                      (filter (\<lambda>m. conversationId m = i \<and> where_lte messagesCursor m)
                         (message_table d)));
               hasMore = (length messages > limit);
               pageMessages = (if hasMore then take limit messages else messages);
               prevCursor =
                 (if truthy messagesCursor
                  then (case take 1 (orderBy_createdAt_asc
                                       (filter (\<lambda>m. conversationId m = i \<and> where_gt pageMessages m)
                                          (message_table d))) of
                          [] \<Rightarrow> None
                        | m # _ \<Rightarrow> if mid m = [] then None else Some (mid m))
                  else None)
           in Inr \<lparr>page_id = cid conversation, page_title = title conversation,
                   page_messages = map view (rev pageMessages),
                   pageInfo = \<lparr>nextCursor = (if hasMore then Some (mid (messages ! limit)) else None),
                               prevCursor = prevCursor\<rparr>\<rparr>))"

subsection \<open>\<open>deleteConversation\<close> and \<open>sendMessage\<close>\<close>

definition deleteConversation :: "db \<Rightarrow> string \<Rightarrow> js_error + db" where
  "deleteConversation d i = conversation_delete d i"

record send_result =
  sent_message :: message_view
  sent_reply :: message_view

text \<open>
  The \<open>messages\<close> array built for the adapter: the rows the conversation held when it was
  read, oldest first, then the new user turn.
\<close>

definition conversation_history :: "db \<Rightarrow> string \<Rightarrow> string \<Rightarrow> llm_message list" where
  "conversation_history d i str =
     map (\<lambda>m. \<lparr>role = role m, content = content m\<rparr>)
       (orderBy_createdAt_asc (filter (\<lambda>m. conversationId m = i) (message_table d)))
     @ [\<lparr>role = User, content = str\<rparr>]"

text \<open>
  The store after the call, and what the call settles with. \<open>s1\<close> is the identifier and
  the clock reading that the store gives the user's message. The assistant's message is
  written later, after the adapter has answered: \<open>s2\<close> is the identifier the store gives
  it and the time that has passed on the store's clock since the user's message was
  written. Time passes forwards: it is a natural number of milliseconds.
\<close>

definition sendMessage ::
  "llm \<Rightarrow> db \<Rightarrow> string \<Rightarrow> string \<Rightarrow> stamp \<Rightarrow> string \<times> nat \<Rightarrow> db \<times> (js_error + send_result)" where
  "sendMessage llmAdapter d i str s1 s2 =
     (case conversation_findUnique d i of
        None \<Rightarrow> (d, Inl (Error ''Conversation not found''))
      | Some conversation \<Rightarrow>
          (case message_create d s1 i User (Some str) of
             Inl error \<Rightarrow> (d, Inl error)
           | Inr (d1, userMessage) \<Rightarrow>
               (case llmAdapter (conversation_history d i str) of
                  Inl error \<Rightarrow> (d1, Inl error)
                | Inr completed \<Rightarrow>
                    (case message_create d1 (fst s2, snd s1 + snd s2) i Assistant completed of
                       Inl error \<Rightarrow> (d1, Inl error)
                     | Inr (d2, assistantMessage) \<Rightarrow>
                         (conversation_update_lastMessageAt d2 i (createdAt assistantMessage),
                          Inr \<lparr>sent_message = view userMessage,
                               sent_reply = view assistantMessage\<rparr>)))))"

section \<open>The boundary (\<open>middleware/errorHandler.ts\<close>)\<close>

record http_response =
  status :: nat
  body_error :: string
  body_details :: "string list option"
  body_retryAfterMs :: "nat option"
  body_correlationId :: "string option"

definition errorHandler :: "js_error \<Rightarrow> string \<Rightarrow> http_response" where
  "errorHandler err correlationId =
     (case zod err of
        Some errors \<Rightarrow>
          \<lparr>status = 400, body_error = ''Validation error'', body_details = Some errors,
           body_retryAfterMs = None, body_correlationId = None\<rparr>
      | None \<Rightarrow>
          if name err = ''AbortError'' \<or> str_includes (message err) ''timeout''
          then \<lparr>status = 504, body_error = ''Upstream error/timeout'', body_details = None,
                body_retryAfterMs = Some 1000, body_correlationId = None\<rparr>
          else if str_includes (message err) ''500''
          then \<lparr>status = 502, body_error = ''Upstream error/timeout'', body_details = None,
                body_retryAfterMs = Some 1000, body_correlationId = None\<rparr>
          else \<lparr>status = 500, body_error = ''Internal server error'', body_details = None,
                body_retryAfterMs = None, body_correlationId = Some correlationId\<rparr>)"

section \<open>Callers\<close>

text \<open>
  A client that pages through a conversation: it starts with the given cursor and passes
  each \<open>nextCursor\<close> it receives to the next call, until it receives none. The list of
  stores holds the state of the store at each call in turn, so that the store may change
  between two calls; the result is the pages in the order received, or \<open>None\<close> when a
  call fails or the list ends before the last page.
\<close>

fun follow_nextCursor ::
  "db list \<Rightarrow> string \<Rightarrow> nat \<Rightarrow> string option \<Rightarrow> message_view list list option" where
  "follow_nextCursor [] i limit cursor = None"
| "follow_nextCursor (d # ds) i limit cursor =
     (case getConversation d i cursor limit of
        Inl error \<Rightarrow> None
      | Inr page \<Rightarrow>
          (case nextCursor (pageInfo page) of
             None \<Rightarrow> Some [page_messages page]
           | Some c \<Rightarrow>
               map_option ((#) (page_messages page)) (follow_nextCursor ds i limit (Some c))))"

text \<open>
  One run of the service, from its construction on: the requests that create and delete
  conversations, and among them the two steps of \<open>initCounter\<close>, in the order in which
  they happen. \<open>CountRuns\<close> is the store answering the count and \<open>CountSettles\<close> the
  assignment of that answer; \<open>pending\<close> holds an answer not yet assigned. The result
  lists the conversations created. A delete of an absent conversation fails and changes
  nothing. A run starts as \<open>serve ConversationService None d\<close>.
\<close>

datatype request = Create stamp | Delete string | CountRuns | CountSettles

fun is_Create :: "request \<Rightarrow> bool" where
  "is_Create (Create s) = True"
| "is_Create r = False"

fun serve ::
  "service \<Rightarrow> nat option \<Rightarrow> db \<Rightarrow> request list \<Rightarrow> conversation list \<times> service \<times> db" where
  "serve svc pending d [] = ([], svc, d)"
| "serve svc pending d (Create s # rs) =
     (case createConversation svc d s of
        (svc', d', c) \<Rightarrow>
          (case serve svc' pending d' rs of (cs, svc'', d'') \<Rightarrow> (c # cs, svc'', d'')))"
| "serve svc pending d (Delete i # rs) =
     (case deleteConversation d i of
        Inl error \<Rightarrow> serve svc pending d rs
      | Inr d' \<Rightarrow> serve svc pending d' rs)"
| "serve svc pending d (CountRuns # rs) = serve svc (Some (conversation_count d)) d rs"
| "serve svc pending d (CountSettles # rs) =
     (case pending of
        None \<Rightarrow> serve svc None d rs
      | Some count \<Rightarrow> serve (initCounter svc count) None d rs)"

section \<open>The message log's order\<close>

text \<open>
  The rows of one conversation, in insertion order.
\<close>

definition messages_of :: "db \<Rightarrow> string \<Rightarrow> message list" where
  "messages_of d i = filter (\<lambda>m. conversationId m = i) (message_table d)"

text \<open>
  The property of the store's identifiers and clock that the pagination relies on: within
  a conversation every message has a later timestamp and a greater identifier than the
  messages inserted before it, and no identifier is empty.
\<close>

definition log_ordered :: "db \<Rightarrow> string \<Rightarrow> bool" where
  "log_ordered d i =
     (sorted_wrt (\<lambda>a b. createdAt a < createdAt b \<and> mid a < mid b) (messages_of d i) \<and>
      list_all (\<lambda>m. mid m \<noteq> []) (messages_of d i))"

text \<open>Store \<open>d\<close> holds the messages of \<open>d0\<close> followed by messages inserted later.\<close>

definition appended :: "db \<Rightarrow> db \<Rightarrow> bool" where
  "appended d0 d = (take (length (message_table d0)) (message_table d) = message_table d0)"

section \<open>Inputs used by the closed examples\<close>

definition default_config :: adapter_config where
  "default_config =
     \<lparr>config_baseUrl = ''http://mock-llm:8080'', config_timeout = None,
      config_maxRetries = None, config_retryDelayMs = None\<rparr>"

definition default_ollama_config :: ollama_config where
  "default_ollama_config =
     \<lparr>config_baseUrl = ''http://ollama:11434'', config_timeout = None,
      config_maxRetries = None, config_retryDelayMs = None, config_model = ''llama3''\<rparr>"

definition hello :: "llm_message list" where
  "hello = [\<lparr>role = User, content = ''Hello''\<rparr>]"

text \<open>A network that answers every attempt with the given status and an unreadable body.\<close>

definition always_status :: "nat \<Rightarrow> nat \<Rightarrow> fetch_result" where
  "always_status s k = FetchResolves s (JsonRejects (Error ''Unexpected end of JSON input''))"

text \<open>A network that answers the first attempt with 500 and the second with \<open>Hi there\<close>.\<close>

definition fail_then_reply :: "nat \<Rightarrow> fetch_result" where
  "fail_then_reply k =
     (if k = 0 then FetchResolves 500 (JsonRejects (Error ''Unexpected end of JSON input''))
      else FetchResolves 200 (JsonResolves \<lparr>response = None, completion = Some ''Hi there''\<rparr>))"

text \<open>A network on which every attempt runs into the attempt's timer.\<close>

definition never_answers :: "nat \<Rightarrow> fetch_result" where
  "never_answers k = FetchRejects AbortError"

text \<open>An input whose caller triggers its cancellation signal during the first attempt.\<close>

definition cancelled_hello :: cancellable_input where
  "cancelled_hello = \<lparr>input_messages = hello, signal = AbortSignal (Some 0)\<rparr>"


text \<open>A network that answers 200 with the JSON object \<open>{}\<close>.\<close>

definition empty_object :: "nat \<Rightarrow> fetch_result" where
  "empty_object k = FetchResolves 200 (JsonResolves \<lparr>response = None, completion = None\<rparr>)"

text \<open>Stores.\<close>

definition empty_store :: db where
  "empty_store = \<lparr>conversation_table = [], message_table = []\<rparr>"

definition row :: "string \<Rightarrow> nat \<Rightarrow> role \<Rightarrow> string \<Rightarrow> message" where
  "row i t r c = \<lparr>role = r, content = c, mid = i, conversationId = ''c1'', createdAt = t\<rparr>"

definition three_messages :: db where
  "three_messages =
     \<lparr>conversation_table =
        [\<lparr>cid = ''c1'', title = ''Conversation #1'', conv_createdAt = 1, lastMessageAt = Some 20\<rparr>],
      message_table =
        [row ''m1'' 10 User ''Hello'', row ''m2'' 20 Assistant ''Hi there'',
         row ''m3'' 30 User ''How are you?'']\<rparr>"

definition four_messages :: db where
  "four_messages =
     \<lparr>conversation_table =
        [\<lparr>cid = ''c1'', title = ''Conversation #1'', conv_createdAt = 1, lastMessageAt = Some 40\<rparr>],
      message_table =
        [row ''m1'' 10 User ''Hello'', row ''m2'' 20 Assistant ''Hi there'',
         row ''m3'' 30 User ''How are you?'', row ''m4'' 40 Assistant ''Fine'']\<rparr>"

text \<open>A conversation whose three messages were written in the same millisecond.\<close>

definition tied_messages :: db where
  "tied_messages =
     \<lparr>conversation_table =
        [\<lparr>cid = ''c1'', title = ''Conversation #1'', conv_createdAt = 1, lastMessageAt = None\<rparr>],
      message_table =
        [row ''m1'' 10 User ''Hello'', row ''m2'' 10 User ''Are you there?'',
         row ''m3'' 10 User ''Hello again'']\<rparr>"

text \<open>An adapter whose call failed with a timeout, and one that answered.\<close>

definition failing_llm :: llm where
  "failing_llm history = Inl AbortError"


text \<open>
  The store after a run in which \<open>initCounter\<close> settled first, two conversations were
  created and the first was deleted.
\<close>

definition store_after_delete :: db where
  "store_after_delete =
     snd (snd (serve ConversationService None empty_store
                 [CountRuns, CountSettles, Create (''c1'', 1), Create (''c2'', 2),
                  Delete ''c1'']))"

section \<open>Properties of the adapters\<close>

subsection \<open>The loop, one step at a time\<close>

lemma fetchWithRetry_returns:
  "attemptOnce (backend k) = Inr r \<Longrightarrow> fetchWithRetry attemptOnce a backend k = (Inr r, [])"
  by (subst fetchWithRetry.simps) simp

lemma fetchWithRetry_throws:
  "attemptOnce (backend k) = Inl e
   \<Longrightarrow> \<not> ((isTimeout e \<or> is500Error e) \<and> int k < maxRetries a)
   \<Longrightarrow> fetchWithRetry attemptOnce a backend k = (Inl e, [])"
  by (subst fetchWithRetry.simps) auto

lemma fetchWithRetry_retries:
  "attemptOnce (backend k) = Inl e \<Longrightarrow> isTimeout e \<or> is500Error e \<Longrightarrow> int k < maxRetries a
   \<Longrightarrow> fetchWithRetry attemptOnce a backend k =
       (fst (fetchWithRetry attemptOnce a backend (k + 1)),
        retryDelayMs a * 2 ^ k # snd (fetchWithRetry attemptOnce a backend (k + 1)))"
  by (subst fetchWithRetry.simps) (simp add: Let_def)

text \<open>
  From attempt \<open>k\<close> on: the retries left are at most \<open>maxRetries - k\<close>, the \<open>j\<close>-th delay
  from here is \<open>retryDelayMs * 2 ^ (k + j)\<close>, and the promise settles with what the last
  attempt made gave.
\<close>

lemma fetchWithRetry_trace:
  "length (snd (fetchWithRetry attemptOnce a backend k)) \<le> nat (maxRetries a - int k) \<and>
   snd (fetchWithRetry attemptOnce a backend k) =
     map (\<lambda>j. retryDelayMs a * 2 ^ (k + j))
       [0..<length (snd (fetchWithRetry attemptOnce a backend k))] \<and>
   fst (fetchWithRetry attemptOnce a backend k) =
     attemptOnce (backend (k + length (snd (fetchWithRetry attemptOnce a backend k))))"
proof (induction attemptOnce a backend k rule: fetchWithRetry.induct)
  case (1 attemptOnce a backend attempt)
  show ?case
  proof (cases "attemptOnce (backend attempt)")
    case (Inr r)
    then show ?thesis by (simp add: fetchWithRetry_returns)
  next
    case (Inl e)
    show ?thesis
    proof (cases "(isTimeout e \<or> is500Error e) \<and> int attempt < maxRetries a")
      case False
      with Inl show ?thesis by (simp add: fetchWithRetry_throws)
    next
      case True
      let ?rest = "fetchWithRetry attemptOnce a backend (attempt + 1)"
      have eq: "fetchWithRetry attemptOnce a backend attempt =
                  (fst ?rest, retryDelayMs a * 2 ^ attempt # snd ?rest)"
        using Inl True by (simp add: fetchWithRetry_retries)
      have ih: "length (snd ?rest) \<le> nat (maxRetries a - int (attempt + 1)) \<and>
                snd ?rest = map (\<lambda>j. retryDelayMs a * 2 ^ (attempt + 1 + j))
                              [0..<length (snd ?rest)] \<and>
                fst ?rest = attemptOnce (backend (attempt + 1 + length (snd ?rest)))"
        using "1.IH" [OF Inl] True by simp
      have len: "length (snd ?rest) + 1 \<le> nat (maxRetries a - int attempt)"
        using ih True by linarith
      have "map (\<lambda>j. retryDelayMs a * 2 ^ (attempt + j)) [0..<Suc (length (snd ?rest))] =
            retryDelayMs a * 2 ^ attempt #
              map (\<lambda>j. retryDelayMs a * 2 ^ (attempt + 1 + j)) [0..<length (snd ?rest)]"
        by (simp add: upt_conv_Cons map_Suc_upt [symmetric] del: upt_Suc)
      with ih len show ?thesis
        unfolding eq by simp
    qed
  qed
qed

subsection \<open>Which HTTP failures carry \<open>500\<close> in their message\<close>

lemma digit_eq_iff:
  assumes "d < 10"
  shows "(digit d = CHR ''5'') = (d = 5)" and "(digit d = CHR ''0'') = (d = 0)"
proof -
  have dist: "distinct ''0123456789''" by simp
  have len: "d < length ''0123456789''" using assms by simp
  have "(''0123456789'' ! d = ''0123456789'' ! 5) = (d = 5)"
    using dist len by (subst nth_eq_iff_index_eq) simp_all
  then show "(digit d = CHR ''5'') = (d = 5)" by (simp add: digit_def)
  have "(''0123456789'' ! d = ''0123456789'' ! 0) = (d = 0)"
    using dist len by (subst nth_eq_iff_index_eq) simp_all
  then show "(digit d = CHR ''0'') = (d = 0)" by (simp add: digit_def)
qed

lemma string_of_nat_3:
  assumes "100 \<le> s" "s \<le> 999"
  shows "string_of_nat s = [digit (s div 10 div 10), digit (s div 10 mod 10), digit (s mod 10)]"
proof -
  have a: "\<not> s < 10" "\<not> s div 10 < 10" "s div 10 div 10 < 10" using assms by auto
  show ?thesis
    using a by (simp add: string_of_nat.simps [of s] string_of_nat.simps [of "s div 10"]
                  string_of_nat.simps [of "s div 10 div 10"])
qed

lemma three_digits_500:
  "((s::nat) div 10 div 10 = 5 \<and> s div 10 mod 10 = 0 \<and> s mod 10 = 0) = (s = 500)"
proof
  assume h: "s div 10 div 10 = 5 \<and> s div 10 mod 10 = 0 \<and> s mod 10 = 0"
  have "s div 10 = s div 10 div 10 * 10 + s div 10 mod 10" by simp
  then have t: "s div 10 = 50" using h by simp
  have "s = s div 10 * 10 + s mod 10" by simp
  then show "s = 500" using h t by simp
next
  assume "s = 500"
  then show "s div 10 div 10 = 5 \<and> s div 10 mod 10 = 0 \<and> s mod 10 = 0" by simp
qed

lemma status_500:
  assumes "100 \<le> s" "s \<le> 999"
  shows "str_includes (''Mock LLM returned '' @ string_of_nat s) ''500'' = (s = 500)"
    and "str_includes (''Ollama returned '' @ string_of_nat s) ''500'' = (s = 500)"
proof -
  have d: "s div 10 div 10 < 10" "s div 10 mod 10 < 10" "s mod 10 < 10" using assms by auto
  show "str_includes (''Mock LLM returned '' @ string_of_nat s) ''500'' = (s = 500)"
    using three_digits_500 [of s]
    by (simp add: string_of_nat_3 [OF assms] digit_eq_iff [OF d(1)] digit_eq_iff [OF d(2)]
          digit_eq_iff [OF d(3)])
  show "str_includes (''Ollama returned '' @ string_of_nat s) ''500'' = (s = 500)"
    using three_digits_500 [of s]
    by (simp add: string_of_nat_3 [OF assms] digit_eq_iff [OF d(1)] digit_eq_iff [OF d(2)]
          digit_eq_iff [OF d(3)])
qed

text \<open>What an HTTP failure throws into the \<open>catch\<close>, and whether the \<open>catch\<close> retries it.\<close>

lemma http_failure_retryable:
  assumes "attemptOnce = mock_attempt \<or> attemptOnce = ollama_attempt"
    and "\<not> ok s" and "100 \<le> s" and "s \<le> 999"
  shows "\<exists>e. attemptOnce (FetchResolves s body) = Inl e \<and>
             (isTimeout e \<or> is500Error e) = (s = 500)"
  using assms(1)
proof
  assume "attemptOnce = mock_attempt"
  then show ?thesis
    using assms(2) status_500(1) [OF assms(3,4)]
    by (simp add: mock_attempt_def Error_def isTimeout_def is500Error_def)
next
  assume "attemptOnce = ollama_attempt"
  then show ?thesis
    using assms(2) status_500(2) [OF assms(3,4)]
    by (simp add: ollama_attempt_def Error_def isTimeout_def is500Error_def)
qed

text \<open>
  From attempt \<open>k\<close> on: every attempt that was followed by a retry had thrown an error the
  \<open>catch\<close> retries, and the last attempt either returned, or threw an error the \<open>catch\<close>
  does not retry, or was made when no retry was left.
\<close>

lemma fetchWithRetry_retries_made:
  "(\<forall>j<length (snd (fetchWithRetry attemptOnce a backend k)).
      \<exists>e. attemptOnce (backend (k + j)) = Inl e \<and> (isTimeout e \<or> is500Error e)) \<and>
   (case fst (fetchWithRetry attemptOnce a backend k) of
      Inr x \<Rightarrow> True
    | Inl e \<Rightarrow> \<not> (isTimeout e \<or> is500Error e) \<or>
               maxRetries a \<le> int (k + length (snd (fetchWithRetry attemptOnce a backend k))))"
proof (induction attemptOnce a backend k rule: fetchWithRetry.induct)
  case (1 attemptOnce a backend attempt)
  show ?case
  proof (cases "attemptOnce (backend attempt)")
    case (Inr r)
    then show ?thesis by (simp add: fetchWithRetry_returns)
  next
    case (Inl e)
    show ?thesis
    proof (cases "(isTimeout e \<or> is500Error e) \<and> int attempt < maxRetries a")
      case False
      with Inl show ?thesis by (auto simp: fetchWithRetry_throws)
    next
      case True
      let ?rest = "fetchWithRetry attemptOnce a backend (attempt + 1)"
      have eq: "fetchWithRetry attemptOnce a backend attempt =
                  (fst ?rest, retryDelayMs a * 2 ^ attempt # snd ?rest)"
        using Inl True by (simp add: fetchWithRetry_retries)
      have ih: "(\<forall>j<length (snd ?rest).
                   \<exists>e. attemptOnce (backend (attempt + 1 + j)) = Inl e \<and>
                       (isTimeout e \<or> is500Error e)) \<and>
                (case fst ?rest of
                   Inr x \<Rightarrow> True
                 | Inl e \<Rightarrow> \<not> (isTimeout e \<or> is500Error e) \<or>
                            maxRetries a \<le> int (attempt + 1 + length (snd ?rest)))"
        using "1.IH" [OF Inl] True by simp
      have made: "\<exists>e. attemptOnce (backend (attempt + j)) = Inl e \<and> (isTimeout e \<or> is500Error e)"
        if "j < Suc (length (snd ?rest))" for j
      proof (cases j)
        case 0
        then show ?thesis using Inl True by auto
      next
        case (Suc j')
        then show ?thesis using that ih by auto
      qed
      show ?thesis
        unfolding eq using made ih by (auto split: sum.splits)
    qed
  qed
qed

section \<open>Claims about the adapters\<close>




text \<open>
  Claim C3, as stated, at a backend that answers 503 to a default adapter: the failure
  is of the 5xx class and two retries are allowed, yet \<open>complete\<close> rejects at once and no
  delay is slept.
\<close>

theorem retry_5xx_counterexample:
  "maxRetries (MockLlmAdapter default_config) = 2 \<and>
   MockLlmAdapter_complete (MockLlmAdapter default_config) (\<lambda>payload. always_status 503) hello
     = (Inl (Error ''Mock LLM returned 503''), [])"
  by (simp add: MockLlmAdapter_complete_def MockLlmAdapter_def default_config_def always_status_def
       fetchWithRetry.simps mock_attempt_def ok_def string_of_nat.simps digit_def
       isTimeout_def is500Error_def Error_def)

text \<open>
  Claim C3, amended. In both classes, from any attempt \<open>k\<close>: an attempt that \<open>fetch\<close>
  rejected with an \<open>AbortError\<close> is retried exactly when \<open>k < maxRetries\<close>; an attempt
  answered with a three-digit status outside 200..299 is retried exactly when the status
  is 500 and \<open>k < maxRetries\<close>; and an attempt that threw any error whose name is not
  \<open>AbortError\<close> and whose message does not contain \<open>500\<close> is not retried: the promise
  rejects with that error and no delay is slept.
\<close>

theorem retry_only_timeout_or_500:
  assumes "attemptOnce = mock_attempt \<or> attemptOnce = ollama_attempt"
  shows "(\<forall>e. backend k = FetchRejects e \<and> name e = ''AbortError'' \<longrightarrow>
            (snd (fetchWithRetry attemptOnce a backend k) \<noteq> []) = (int k < maxRetries a)) \<and>
         (\<forall>s body. backend k = FetchResolves s body \<and> \<not> ok s \<and> 100 \<le> s \<and> s \<le> 999 \<longrightarrow>
            (snd (fetchWithRetry attemptOnce a backend k) \<noteq> []) = (s = 500 \<and> int k < maxRetries a)) \<and>
         (\<forall>e. attemptOnce (backend k) = Inl e \<and> name e \<noteq> ''AbortError'' \<and>
               \<not> str_includes (message e) ''500'' \<longrightarrow>
            fetchWithRetry attemptOnce a backend k = (Inl e, []))"
proof (intro conjI allI impI)
  fix e assume h: "backend k = FetchRejects e \<and> name e = ''AbortError''"
  have att: "attemptOnce (backend k) = Inl e"
    using assms h by (auto simp: mock_attempt_def ollama_attempt_def)
  have t: "isTimeout e" using h by (simp add: isTimeout_def)
  show "(snd (fetchWithRetry attemptOnce a backend k) \<noteq> []) = (int k < maxRetries a)"
  proof (cases "int k < maxRetries a")
    case True
    then show ?thesis using att fetchWithRetry_retries [of attemptOnce backend k e a] t by simp
  next
    case False
    then show ?thesis using att fetchWithRetry_throws [of attemptOnce backend k e a] by simp
  qed
next
  fix s body assume h: "backend k = FetchResolves s body \<and> \<not> ok s \<and> 100 \<le> s \<and> s \<le> 999"
  obtain e where att: "attemptOnce (backend k) = Inl e"
    and r: "(isTimeout e \<or> is500Error e) = (s = 500)"
    using http_failure_retryable [OF assms, of s body] h by auto
  show "(snd (fetchWithRetry attemptOnce a backend k) \<noteq> []) = (s = 500 \<and> int k < maxRetries a)"
  proof (cases "s = 500 \<and> int k < maxRetries a")
    case True
    then show ?thesis using att fetchWithRetry_retries [of attemptOnce backend k e a] r by simp
  next
    case False
    then show ?thesis using att fetchWithRetry_throws [of attemptOnce backend k e a] r by auto
  qed
next
  fix e assume h: "attemptOnce (backend k) = Inl e \<and> name e \<noteq> ''AbortError'' \<and>
               \<not> str_includes (message e) ''500''"
  then show "fetchWithRetry attemptOnce a backend k = (Inl e, [])"
    using fetchWithRetry_throws [of attemptOnce backend k e a]
    by (simp add: isTimeout_def is500Error_def)
qed

theorem retry_only_timeout_or_500_witness:
  "(mock_attempt = mock_attempt \<or> mock_attempt = ollama_attempt) \<and>
   snd (fetchWithRetry mock_attempt (MockLlmAdapter default_config) (always_status 500) 0) \<noteq> []"
proof -
  have h: "mock_attempt = mock_attempt \<or> mock_attempt = ollama_attempt" by simp
  have "\<forall>s body. always_status 500 0 = FetchResolves s body \<and> \<not> ok s \<and> 100 \<le> s \<and> s \<le> 999 \<longrightarrow>
          (snd (fetchWithRetry mock_attempt (MockLlmAdapter default_config) (always_status 500) 0) \<noteq> [])
            = (s = 500 \<and> int 0 < maxRetries (MockLlmAdapter default_config))"
    using retry_only_timeout_or_500 [OF h, of "always_status 500" 0 "MockLlmAdapter default_config"]
    by blast
  then show ?thesis
    by (simp add: always_status_def ok_def MockLlmAdapter_def default_config_def)
qed

text \<open>
  Claim C6, as stated, at a call whose caller supplies a cancellation signal and triggers
  it during the first attempt, while the backend answers that attempt with 500 and the
  next with a completion: the attempt is not aborted and \<open>complete\<close> does not fail with a
  cancellation error; it sleeps 1000 ms, tries again and resolves.
\<close>

theorem triggered_signal_counterexample:
  "signal cancelled_hello = AbortSignal (Some 0) \<and>
   MockLlmAdapter_complete_input (MockLlmAdapter default_config) (\<lambda>payload. fail_then_reply)
     cancelled_hello
     = (Inr (Some ''Hi there''), [1000])"
  by (simp add: MockLlmAdapter_complete_input_def MockLlmAdapter_complete_def MockLlmAdapter_def
       default_config_def cancelled_hello_def fail_then_reply_def fetchWithRetry.simps
       mock_attempt_def ok_def string_of_nat.simps digit_def isTimeout_def is500Error_def
       Error_def)

text \<open>
  Claim C6, amended. In both adapter classes \<open>complete\<close> reads the messages of its input
  and nothing else: a cancellation signal the caller supplies with the input reaches no
  attempt, so that, triggered or not, \<open>complete\<close> settles as it does for the same
  messages without a signal, after the same retries and delays. \<open>complete\<close> has no error
  of its own, hence none of a cancellation kind: what it settles with is what the last
  attempt it made returned or threw. The one abort there is, that of an attempt's own
  timer, is retried: \<open>complete\<close> rejects with an \<open>AbortError\<close> only when \<open>maxRetries\<close>
  retries have been made.
\<close>

theorem cancellation_signal_is_not_read:
  "MockLlmAdapter_complete_input a network (input\<lparr>signal := s\<rparr>)
     = MockLlmAdapter_complete_input a network \<lparr>input_messages = input_messages input\<rparr> \<and>
   OllamaLlmAdapter_complete_input b network' (input\<lparr>signal := s\<rparr>)
     = OllamaLlmAdapter_complete_input b network' \<lparr>input_messages = input_messages input\<rparr> \<and>
   fst (MockLlmAdapter_complete_input a network (input\<lparr>signal := s\<rparr>))
     = mock_attempt
         (network (prompt (input_messages input))
            (length (snd (MockLlmAdapter_complete_input a network (input\<lparr>signal := s\<rparr>))))) \<and>
   fst (OllamaLlmAdapter_complete_input b network' (input\<lparr>signal := s\<rparr>))
     = ollama_attempt
         (network' (model b, prompt (input_messages input))
            (length (snd (OllamaLlmAdapter_complete_input b network' (input\<lparr>signal := s\<rparr>))))) \<and>
   (\<forall>e. fst (MockLlmAdapter_complete_input a network (input\<lparr>signal := s\<rparr>)) = Inl e \<and>
        isTimeout e \<longrightarrow>
        maxRetries a
          \<le> int (length (snd (MockLlmAdapter_complete_input a network (input\<lparr>signal := s\<rparr>))))) \<and>
   (\<forall>e. fst (OllamaLlmAdapter_complete_input b network' (input\<lparr>signal := s\<rparr>)) = Inl e \<and>
        isTimeout e \<longrightarrow>
        maxRetries b
          \<le> int (length (snd (OllamaLlmAdapter_complete_input b network' (input\<lparr>signal := s\<rparr>)))))"
proof -
  let ?m = "fetchWithRetry mock_attempt a (network (prompt (input_messages input))) 0"
  let ?o = "fetchWithRetry ollama_attempt b (network' (model b, prompt (input_messages input))) 0"
  have m: "MockLlmAdapter_complete_input a network (input\<lparr>signal := s\<rparr>) = ?m"
    "MockLlmAdapter_complete_input a network \<lparr>input_messages = input_messages input\<rparr> = ?m"
    by (simp_all add: MockLlmAdapter_complete_input_def MockLlmAdapter_complete_def)
  have o: "OllamaLlmAdapter_complete_input b network' (input\<lparr>signal := s\<rparr>) = ?o"
    "OllamaLlmAdapter_complete_input b network' \<lparr>input_messages = input_messages input\<rparr> = ?o"
    by (simp_all add: OllamaLlmAdapter_complete_input_def OllamaLlmAdapter_complete_def)
  have last_m: "fst ?m = mock_attempt (network (prompt (input_messages input)) (length (snd ?m)))"
    using fetchWithRetry_trace [of mock_attempt a "network (prompt (input_messages input))" 0]
    by simp
  have last_o: "fst ?o = ollama_attempt
                  (network' (model b, prompt (input_messages input)) (length (snd ?o)))"
    using fetchWithRetry_trace
            [of ollama_attempt b "network' (model b, prompt (input_messages input))" 0]
    by simp
  have abort_m: "maxRetries a \<le> int (length (snd ?m))" if "fst ?m = Inl e \<and> isTimeout e" for e
    using fetchWithRetry_retries_made
            [of mock_attempt a "network (prompt (input_messages input))" 0] that
    by simp
  have abort_o: "maxRetries b \<le> int (length (snd ?o))" if "fst ?o = Inl e \<and> isTimeout e" for e
    using fetchWithRetry_retries_made
            [of ollama_attempt b "network' (model b, prompt (input_messages input))" 0] that
    by simp
  show ?thesis
    unfolding m o using last_m last_o abort_m abort_o by blast
qed

text \<open>
  A default adapter whose every attempt runs into its timer, called with a signal that
  the caller triggers during the first attempt: three attempts, and the third's
  \<open>AbortError\<close>.
\<close>

theorem cancellation_signal_is_not_read_witness:
  "MockLlmAdapter_complete_input (MockLlmAdapter default_config) (\<lambda>payload. never_answers)
     cancelled_hello
     = (Inl AbortError, [1000, 2000]) \<and>
   isTimeout AbortError \<and>
   maxRetries (MockLlmAdapter default_config)
     \<le> int (length (snd (MockLlmAdapter_complete_input (MockLlmAdapter default_config)
                             (\<lambda>payload. never_answers) cancelled_hello)))"
proof -
  let ?run = "MockLlmAdapter_complete_input (MockLlmAdapter default_config)
                (\<lambda>payload. never_answers) cancelled_hello"
  have same: "cancelled_hello\<lparr>signal := AbortSignal (Some 0)\<rparr> = cancelled_hello"
    by (simp add: cancelled_hello_def)
  have run: "?run = (Inl AbortError, [1000, 2000])"
    by (simp add: MockLlmAdapter_complete_input_def MockLlmAdapter_complete_def
          MockLlmAdapter_def default_config_def cancelled_hello_def never_answers_def
          fetchWithRetry.simps mock_attempt_def isTimeout_def AbortError_def)
  have timeout: "isTimeout AbortError" by (simp add: isTimeout_def AbortError_def)
  have "fst ?run = Inl AbortError \<and> isTimeout AbortError" using run timeout by simp
  then have "maxRetries (MockLlmAdapter default_config) \<le> int (length (snd ?run))"
    using cancellation_signal_is_not_read
            [where a = "MockLlmAdapter default_config" and network = "\<lambda>payload. never_answers"
               and input = cancelled_hello and s = "AbortSignal (Some 0)"]
    unfolding same by blast
  with run timeout show ?thesis by blast
qed

text \<open>
  Claim C9. A 2xx answer whose JSON object has no \<open>completion\<close> field makes the mock
  adapter resolve, with \<open>completion\<close> undefined and without a retry, on whichever attempt
  it arrives; the Ollama adapter, given a 2xx answer with neither \<open>response\<close> nor
  \<open>completion\<close>, rejects with its own error about the missing field, without a retry.
\<close>

theorem missing_completion_field:
  "(ok s \<and> completion data = None \<and> backend k = FetchResolves s (JsonResolves data) \<longrightarrow>
      fetchWithRetry mock_attempt a backend k = (Inr None, [])) \<and>
   (ok s \<and> completion data = None \<and>
      network (prompt messages) 0 = FetchResolves s (JsonResolves data) \<longrightarrow>
      MockLlmAdapter_complete a' network messages = (Inr None, [])) \<and>
   (ok s \<and> response data = None \<and> completion data = None \<and>
      backend k = FetchResolves s (JsonResolves data) \<longrightarrow>
      fetchWithRetry ollama_attempt b backend k
        = (Inl (Error ''Ollama response missing completion field''), [])) \<and>
   (ok s \<and> response data = None \<and> completion data = None \<and>
      network' (model b', prompt messages) 0 = FetchResolves s (JsonResolves data) \<longrightarrow>
      OllamaLlmAdapter_complete b' network' messages
        = (Inl (Error ''Ollama response missing completion field''), []))"
proof -
  have mock: "fetchWithRetry mock_attempt x f j = (Inr None, [])"
    if "ok s" "completion data = None" "f j = FetchResolves s (JsonResolves data)"
    for x :: "'z adapter_scheme" and f j
    using that fetchWithRetry_returns [of mock_attempt f j None x]
    by (simp add: mock_attempt_def)
  have ollama: "fetchWithRetry ollama_attempt x f j
                  = (Inl (Error ''Ollama response missing completion field''), [])"
    if "ok s" "response data = None" "completion data = None"
      "f j = FetchResolves s (JsonResolves data)"
    for x :: "'z adapter_scheme" and f j
  proof -
    have "ollama_attempt (f j) = Inl (Error ''Ollama response missing completion field'')"
      using that by (simp add: ollama_attempt_def or_else_def)
    moreover have "\<not> (isTimeout (Error ''Ollama response missing completion field'') \<or>
                     is500Error (Error ''Ollama response missing completion field''))"
      by (simp add: isTimeout_def is500Error_def Error_def)
    ultimately show ?thesis
      using fetchWithRetry_throws
        [of ollama_attempt f j "Error ''Ollama response missing completion field''" x]
      by simp
  qed
  show ?thesis
    unfolding MockLlmAdapter_complete_def OllamaLlmAdapter_complete_def
  proof (intro conjI impI; elim conjE)
    assume "ok s" "completion data = None" "backend k = FetchResolves s (JsonResolves data)"
    then show "fetchWithRetry mock_attempt a backend k = (Inr None, [])"
      by (rule mock)
  next
    assume "ok s" "completion data = None"
      "network (prompt messages) 0 = FetchResolves s (JsonResolves data)"
    then show "fetchWithRetry mock_attempt a' (network (prompt messages)) 0 = (Inr None, [])"
      by (rule mock)
  next
    assume "ok s" "response data = None" "completion data = None"
      "backend k = FetchResolves s (JsonResolves data)"
    then show "fetchWithRetry ollama_attempt b backend k
                 = (Inl (Error ''Ollama response missing completion field''), [])"
      by (rule ollama)
  next
    assume "ok s" "response data = None" "completion data = None"
      "network' (model b', prompt messages) 0 = FetchResolves s (JsonResolves data)"
    then show "fetchWithRetry ollama_attempt b' (network' (model b', prompt messages)) 0
                 = (Inl (Error ''Ollama response missing completion field''), [])"
      by (rule ollama)
  qed
qed

theorem missing_completion_field_witness:
  "ok 200 \<and>
   MockLlmAdapter_complete (MockLlmAdapter default_config) (\<lambda>payload. empty_object) hello
     = (Inr None, []) \<and>
   OllamaLlmAdapter_complete (OllamaLlmAdapter default_ollama_config) (\<lambda>payload. empty_object) hello
     = (Inl (Error ''Ollama response missing completion field''), [])"
proof -
  have h: "ok 200" by (simp add: ok_def)
  have d: "completion \<lparr>response = None, completion = None\<rparr> = None"
    "response \<lparr>response = None, completion = None\<rparr> = None" by simp_all
  show ?thesis
    using h d
      missing_completion_field
        [of 200 "\<lparr>response = None, completion = None\<rparr>" empty_object 0
            "MockLlmAdapter default_config" "\<lambda>payload. empty_object" hello
            "MockLlmAdapter default_config" "OllamaLlmAdapter default_ollama_config"
            "\<lambda>payload. empty_object" "OllamaLlmAdapter default_ollama_config"]
    by (simp add: empty_object_def)
qed

section \<open>Claims about the service and the boundary\<close>

text \<open>
  Claim C8, as stated, at a store with no conversation: \<open>getConversation\<close> fails with the
  error \<open>Conversation not found\<close>, and the error handler answers it with status 500 and
  \<open>Internal server error\<close>, the very response it gives an error it does not classify.
\<close>

theorem not_found_counterexample:
  "getConversation empty_store ''missing'' None 20 = Inl (Error ''Conversation not found'') \<and>
   errorHandler (Error ''Conversation not found'') ''req-1''
     = \<lparr>status = 500, body_error = ''Internal server error'', body_details = None,
        body_retryAfterMs = None, body_correlationId = Some ''req-1''\<rparr> \<and>
   errorHandler (Error ''Conversation not found'') ''req-1''
     = errorHandler (Error ''Cannot read properties of undefined'') ''req-1''"
  by (simp add: getConversation_def conversation_findUnique_def empty_store_def errorHandler_def
        Error_def)

text \<open>
  Claim C8, amended. Called with the identifier of no conversation, \<open>getConversation\<close>
  and \<open>sendMessage\<close> fail with the error \<open>Conversation not found\<close> (the store unchanged)
  and \<open>deleteConversation\<close> fails with the store's record-not-found error; the error
  handler has no case for them and answers each with status 500, \<open>Internal server error\<close>
  and the correlation identifier, as it does for every error it does not classify.
\<close>

theorem not_found_is_internal_error:
  assumes "conversation_findUnique d i = None"
  shows "getConversation d i cursor limit = Inl (Error ''Conversation not found'') \<and>
         sendMessage llmAdapter d i str s1 s2 = (d, Inl (Error ''Conversation not found'')) \<and>
         deleteConversation d i = Inl PrismaRecordNotFound \<and>
         errorHandler (Error ''Conversation not found'') correlationId
           = \<lparr>status = 500, body_error = ''Internal server error'', body_details = None,
              body_retryAfterMs = None, body_correlationId = Some correlationId\<rparr> \<and>
         errorHandler PrismaRecordNotFound correlationId
           = \<lparr>status = 500, body_error = ''Internal server error'', body_details = None,
              body_retryAfterMs = None, body_correlationId = Some correlationId\<rparr>"
  using assms
  by (simp add: getConversation_def sendMessage_def deleteConversation_def conversation_delete_def
        errorHandler_def Error_def PrismaRecordNotFound_def)

theorem not_found_is_internal_error_witness:
  "conversation_findUnique empty_store ''missing'' = None \<and>
   getConversation empty_store ''missing'' None 20 = Inl (Error ''Conversation not found'') \<and>
   status (errorHandler (Error ''Conversation not found'') ''req-1'') = 500"
proof -
  have h: "conversation_findUnique empty_store ''missing'' = None"
    by (simp add: conversation_findUnique_def empty_store_def)
  show ?thesis
    using h not_found_is_internal_error [OF h, of None 20 failing_llm "''x''" "(''m1'', 1)" "(''m2'', 2)" "''req-1''"]
    by simp
qed

subsection \<open>The title counter\<close>

lemma store_after_delete_eq:
  "store_after_delete =
     \<lparr>conversation_table =
        [\<lparr>cid = ''c2'', title = ''Conversation #2'', conv_createdAt = 2, lastMessageAt = None\<rparr>],
      message_table = []\<rparr>"
  by (simp add: store_after_delete_def ConversationService_def initCounter_def
        conversation_count_def empty_store_def createConversation_def deleteConversation_def
        conversation_delete_def conversation_findUnique_def string_of_nat.simps digit_def
        Let_def)

text \<open>
  While no assignment of \<open>initCounter\<close> happens, the conversations created are numbered
  from the counter on.
\<close>

lemma serve_titles:
  "CountSettles \<notin> set rs \<Longrightarrow>
   map title (fst (serve svc pending d rs)) =
     map (\<lambda>n. ''Conversation #'' @ string_of_nat n)
       [conversationCounter svc + 1 ..< conversationCounter svc + 1 + length (filter is_Create rs)]"
proof (induction svc pending d rs rule: serve.induct)
  case (1 svc pending d)
  then show ?case by simp
next
  case (2 svc pending d s rs)
  obtain svc' d' c where cr: "createConversation svc d s = (svc', d', c)"
    by (cases "createConversation svc d s") auto
  have c1: "conversationCounter svc' = conversationCounter svc + 1"
    and c2: "title c = ''Conversation #'' @ string_of_nat (conversationCounter svc + 1)"
    using cr by (auto simp: createConversation_def Let_def)
  have ih: "map title (fst (serve svc' pending d' rs)) =
     map (\<lambda>n. ''Conversation #'' @ string_of_nat n)
       [conversationCounter svc' + 1 ..< conversationCounter svc' + 1 + length (filter is_Create rs)]"
    using "2.IH" [OF cr [symmetric]] "2.prems" by simp
  show ?case
    using cr c1 c2 ih
    by (simp add: case_prod_unfold upt_conv_Cons del: upt_Suc)
next
  case (3 svc pending d i rs)
  then show ?case by (cases "deleteConversation d i") simp_all
next
  case (4 svc pending d rs)
  then show ?case by simp
next
  case (5 svc pending d rs)
  then show ?case by simp
qed

text \<open>
  Claim C5, as stated, at a service that created two conversations, deleted the first
  and was started again: the counter is seeded with 1, the number of conversations
  stored, not with 2, the number ever created, and the next conversation gets the
  number 2 a second time.
\<close>

theorem title_number_repeats_counterexample:
  "map title (fst (serve ConversationService None empty_store
                     [CountRuns, CountSettles, Create (''c1'', 1), Create (''c2'', 2),
                      Delete ''c1'']))
     = [''Conversation #1'', ''Conversation #2''] \<and>
   map title (fst (serve ConversationService None store_after_delete
                     [CountRuns, CountSettles, Create (''c3'', 3)]))
     = [''Conversation #2'']"
  by (simp add: store_after_delete_eq ConversationService_def initCounter_def
        conversation_count_def empty_store_def createConversation_def deleteConversation_def
        conversation_delete_def conversation_findUnique_def string_of_nat.simps digit_def
        Let_def)

text \<open>
  Within one run too a number repeats, when a conversation is created before the
  assignment of \<open>initCounter\<close>: the assignment puts the counter back to the count that the
  store answered before that conversation existed.
\<close>

lemma title_number_repeats_before_settled:
  "map title (fst (serve ConversationService None empty_store
                     [CountRuns, Create (''c1'', 1), CountSettles, Create (''c2'', 2)]))
     = [''Conversation #1'', ''Conversation #1'']"
  by (simp add: ConversationService_def initCounter_def conversation_count_def empty_store_def
        createConversation_def string_of_nat.simps digit_def Let_def)

text \<open>
  Claim C5, amended. \<open>initCounter\<close>, which the constructor starts without awaiting it,
  sets the counter to the number of conversations the store held when it answered the
  count (deleted conversations are not in it), whatever the counter was before; and
  every \<open>createConversation\<close> adds one to the counter and puts the new value in the
  title. So once \<open>initCounter\<close> has made its assignment, of the count \<open>n\<close>, for the rest of
  the run and whatever is deleted in between, the conversations created get the numbers
  \<open>n + 1\<close>, \<open>n + 2\<close>, ... in order: three creations give three distinct, increasing
  numbers.
\<close>

theorem numbers_consecutive_once_counter_settled:
  "serve svc pending d (CountRuns # rs) = serve svc (Some (length (conversation_table d))) d rs \<and>
   (CountSettles \<notin> set rs \<longrightarrow>
      map title (fst (serve svc (Some count) d (CountSettles # rs))) =
        map (\<lambda>n. ''Conversation #'' @ string_of_nat n)
          [count + 1 ..< count + 1 + length (filter is_Create rs)]) \<and>
   (CountSettles \<notin> set rs \<longrightarrow>
      map title (fst (serve svc pending d rs)) =
        map (\<lambda>n. ''Conversation #'' @ string_of_nat n)
          [conversationCounter svc + 1 ..<
           conversationCounter svc + 1 + length (filter is_Create rs)])"
  using serve_titles [of rs svc pending d]
    serve_titles [of rs "svc\<lparr>conversationCounter := count\<rparr>" None d]
  by (simp add: initCounter_def conversation_count_def)

text \<open>
  A run on an empty store in which \<open>initCounter\<close> settles first: a conversation is
  created and deleted, and the next two get the numbers 2 and 3.
\<close>

theorem numbers_consecutive_once_counter_settled_witness:
  "CountSettles \<notin> set [Create (''c1'', 1), Delete ''c1'', Create (''c2'', 2), Create (''c3'', 3)] \<and>
   map title (fst (serve ConversationService None empty_store
                     (CountRuns # CountSettles #
                      [Create (''c1'', 1), Delete ''c1'', Create (''c2'', 2), Create (''c3'', 3)])))
     = [''Conversation #1'', ''Conversation #2'', ''Conversation #3'']"
proof -
  let ?rs = "[Create (''c1'', 1), Delete ''c1'', Create (''c2'', 2), Create (''c3'', 3)]"
  let ?n = "length (conversation_table empty_store)"
  have h: "CountSettles \<notin> set ?rs" by simp
  have counted:
    "serve ConversationService None empty_store (CountRuns # CountSettles # ?rs)
       = serve ConversationService (Some ?n) empty_store (CountSettles # ?rs)"
    by (rule conjunct1 [OF numbers_consecutive_once_counter_settled])
  have numbered:
    "map title (fst (serve ConversationService (Some ?n) empty_store (CountSettles # ?rs))) =
       map (\<lambda>n. ''Conversation #'' @ string_of_nat n)
         [?n + 1 ..< ?n + 1 + length (filter is_Create ?rs)]"
    by (rule mp [OF conjunct1 [OF conjunct2 [OF numbers_consecutive_once_counter_settled]] h])
  have u: "[Suc 0..<4] = [1, 2, 3]" by (simp add: upt_conv_Cons)
  have numbers:
    "map (\<lambda>n. ''Conversation #'' @ string_of_nat n)
       [?n + 1 ..< ?n + 1 + length (filter is_Create ?rs)]
     = [''Conversation #1'', ''Conversation #2'', ''Conversation #3'']"
    by (simp add: empty_store_def u string_of_nat.simps digit_def)
  have "map title (fst (serve ConversationService None empty_store
                          (CountRuns # CountSettles # ?rs)))
          = [''Conversation #1'', ''Conversation #2'', ''Conversation #3'']"
    unfolding counted numbered by (rule numbers)
  with h show ?thesis by (rule conjI)
qed

subsection \<open>\<open>prevCursor\<close>\<close>

text \<open>
  Claim C4, at a conversation of four messages read with the cursor of the newest and a
  limit of 3: the page is \<open>m2, m3, m4\<close> and its \<open>prevCursor\<close> is \<open>m3\<close>, although no message
  is newer than the page; the page read with that \<open>prevCursor\<close> is \<open>m1, m2, m3\<close>, whose
  newest message is older than \<open>m4\<close>.
\<close>

theorem prevCursor_moves_backward:
  "map_sum id (\<lambda>page. (map view_id (page_messages page), prevCursor (pageInfo page)))
     (getConversation four_messages ''c1'' (Some ''m4'') 3)
     = Inr ([''m2'', ''m3'', ''m4''], Some ''m3'') \<and>
   map_sum id (\<lambda>page. (map view_id (page_messages page), prevCursor (pageInfo page)))
     (getConversation four_messages ''c1'' (Some ''m3'') 3)
     = Inr ([''m1'', ''m2'', ''m3''], Some ''m2'')"
  by (simp add: getConversation_def conversation_findUnique_def four_messages_def row_def
        where_lte_def where_gt_def orderBy_createdAt_desc_def orderBy_createdAt_asc_def
        view_def Let_def)

subsection \<open>Sorting by timestamp\<close>

lemma insort_key_before_last:
  "f x \<le> f u \<Longrightarrow> insort_key f x (ys @ [u]) = insort_key f x ys @ [u]"
  by (induction ys) auto

lemma sort_key_snoc:
  "\<forall>x\<in>set xs. f x \<le> f u \<Longrightarrow> sort_key f (xs @ [u]) = sort_key f xs @ [u]"
  by (induction xs) (auto simp: insort_key_before_last)


lemma sort_key_least_last:
  "\<forall>y\<in>set ys. f x < f y \<Longrightarrow> sort_key f (ys @ [x]) = x # sort_key f ys"
  by (induction ys) auto

text \<open>Rows in strictly increasing order of the key are found so from either end.\<close>

lemma sort_key_rev_strict:
  "sorted_wrt (\<lambda>a b. f a < f b) xs \<Longrightarrow> sort_key f (rev xs) = xs"
proof (induction xs)
  case Nil
  then show ?case by simp
next
  case (Cons x xs)
  then have "\<forall>y\<in>set (rev xs). f x < f y" by simp
  then have "sort_key f (rev xs @ [x]) = x # sort_key f (rev xs)"
    by (rule sort_key_least_last)
  then show ?case using Cons by simp
qed

lemma sorted_last_Max:
  "sorted zs \<Longrightarrow> zs \<noteq> [] \<Longrightarrow> last zs = Max (set zs)"
proof (induction zs)
  case Nil
  then show ?case by simp
next
  case (Cons z zs)
  show ?case
  proof (cases "zs = []")
    case True
    then show ?thesis by simp
  next
    case False
    have "Max (set zs) \<in> set zs" using False by simp
    then have "z \<le> Max (set zs)" using Cons.prems(1) by auto
    then show ?thesis using Cons False by (simp add: max_def)
  qed
qed

lemma newest_createdAt:
  "(case take 1 (orderBy_createdAt_desc ms) of [] \<Rightarrow> None | m # _ \<Rightarrow> Some (createdAt m)) =
     (if ms = [] then None else Some (Max (createdAt ` set ms)))"
proof (cases "ms = []")
  case True
  then show ?thesis by (simp add: orderBy_createdAt_desc_def)
next
  case False
  have ne: "sort_key createdAt (rev ms) \<noteq> []"
    using False by (metis length_sort length_rev length_0_conv)
  then obtain bs l where ys: "sort_key createdAt (rev ms) = bs @ [l]"
    by (cases "sort_key createdAt (rev ms)" rule: rev_cases) auto
  have "sorted (map createdAt (bs @ [l]))"
    using sorted_sort_key [of createdAt "rev ms"] ys by simp
  then have "last (map createdAt (bs @ [l])) = Max (set (map createdAt (bs @ [l])))"
    by (intro sorted_last_Max) simp_all
  moreover have "set (map createdAt (bs @ [l])) = createdAt ` set ms"
    by (metis ys set_sort set_map set_rev)
  ultimately have m: "createdAt l = Max (createdAt ` set ms)" by simp
  show ?thesis using False m by (simp add: orderBy_createdAt_desc_def ys)
qed

lemma listConversations_entry:
  "listConversations d =
     map (\<lambda>conv. \<lparr>summary_id = cid conv, summary_title = title conv,
                   summary_createdAt = conv_createdAt conv,
                   summary_lastMessageAt =
                     (if messages_of d (cid conv) = [] then None
                      else Some (Max (createdAt ` set (messages_of d (cid conv)))))\<rparr>)
       (rev (sort_key conv_createdAt (conversation_table d)))"
  unfolding listConversations_def messages_of_def newest_createdAt by (rule refl)

lemma findUnique_Some:
  "conversation_findUnique d i = Some c \<Longrightarrow> c \<in> set (conversation_table d) \<and> cid c = i"
  by (auto simp: conversation_findUnique_def find_Some_iff)

lemma sendMessage_adapter_fails:
  assumes "conversation_findUnique d i = Some c"
    and "llmAdapter (conversation_history d i str) = Inl e"
  shows "sendMessage llmAdapter d i str s1 s2 =
           (d\<lparr>message_table := message_table d @
                 [\<lparr>role = User, content = str, mid = fst s1, conversationId = i,
                   createdAt = snd s1\<rparr>]\<rparr>, Inl e)"
  using assms by (simp add: sendMessage_def message_create_def Let_def)

text \<open>
  Claim C10. \<open>listConversations\<close> gives each conversation, as \<open>lastMessageAt\<close>, the
  greatest timestamp among the conversation's messages, whatever their role, and nothing
  when it has none; the stored \<open>lastMessageAt\<close> is not read. So after a \<open>sendMessage\<close>
  whose adapter call failed, made when the clock is not behind the conversation's
  messages, the conversations are stored as before, the stored field included, while the
  conversation is listed with the timestamp of the user's new message.
\<close>

theorem listed_lastMessageAt_is_newest_message:
  "map summary_lastMessageAt (listConversations d) =
     map (\<lambda>conv. if messages_of d (cid conv) = [] then None
                  else Some (Max (createdAt ` set (messages_of d (cid conv)))))
       (rev (sort_key conv_createdAt (conversation_table d))) \<and>
   (conversation_findUnique d i = Some c \<and>
    llmAdapter (conversation_history d i str) = Inl e \<and>
    (\<forall>m\<in>set (messages_of d i). createdAt m \<le> snd s1) \<longrightarrow>
      conversation_table (fst (sendMessage llmAdapter d i str s1 s2)) = conversation_table d \<and>
      (\<exists>v\<in>set (listConversations (fst (sendMessage llmAdapter d i str s1 s2))). summary_id v = i) \<and>
      (\<forall>v\<in>set (listConversations (fst (sendMessage llmAdapter d i str s1 s2))).
          summary_id v = i \<longrightarrow> summary_lastMessageAt v = Some (snd s1)))"
proof (intro conjI impI)
  show "map summary_lastMessageAt (listConversations d) =
     map (\<lambda>conv. if messages_of d (cid conv) = [] then None
                  else Some (Max (createdAt ` set (messages_of d (cid conv)))))
       (rev (sort_key conv_createdAt (conversation_table d)))"
    by (simp add: listConversations_entry comp_def)
next
  assume h: "conversation_findUnique d i = Some c \<and>
    llmAdapter (conversation_history d i str) = Inl e \<and>
    (\<forall>m\<in>set (messages_of d i). createdAt m \<le> snd s1)"
  let ?u = "\<lparr>role = User, content = str, mid = fst s1, conversationId = i, createdAt = snd s1\<rparr>"
  let ?d' = "d\<lparr>message_table := message_table d @ [?u]\<rparr>"
  have eq: "fst (sendMessage llmAdapter d i str s1 s2) = ?d'"
    using h sendMessage_adapter_fails [of d i c llmAdapter str e s1 s2] by simp
  have ms: "messages_of ?d' i = messages_of d i @ [?u]" by (simp add: messages_of_def)
  have "Max (createdAt ` set (messages_of ?d' i)) = snd s1"
  proof (rule Max_eqI)
    show "finite (createdAt ` set (messages_of ?d' i))" by simp
    show "snd s1 \<in> createdAt ` set (messages_of ?d' i)" unfolding ms by (simp add: image_iff)
    fix y assume "y \<in> createdAt ` set (messages_of ?d' i)"
    then show "y \<le> snd s1" using h unfolding ms by auto
  qed
  then have newest: "\<forall>conv. cid conv = i \<longrightarrow>
      (if messages_of ?d' (cid conv) = [] then None
       else Some (Max (createdAt ` set (messages_of ?d' (cid conv))))) = Some (snd s1)"
    using ms by simp
  have mem: "c \<in> set (conversation_table d) \<and> cid c = i" using h findUnique_Some by blast
  show "conversation_table (fst (sendMessage llmAdapter d i str s1 s2)) = conversation_table d"
    unfolding eq by simp
  show "\<exists>v\<in>set (listConversations (fst (sendMessage llmAdapter d i str s1 s2))). summary_id v = i"
    unfolding eq listConversations_entry using mem by (auto simp: image_iff intro!: bexI [of _ c])
  show "\<forall>v\<in>set (listConversations (fst (sendMessage llmAdapter d i str s1 s2))).
          summary_id v = i \<longrightarrow> summary_lastMessageAt v = Some (snd s1)"
    unfolding eq listConversations_entry using newest by auto
qed

theorem listed_lastMessageAt_is_newest_message_witness:
  "conversation_findUnique three_messages ''c1'' \<noteq> None \<and>
   map lastMessageAt (conversation_table
     (fst (sendMessage failing_llm three_messages ''c1'' ''Bye'' (''m4'', 40) (''m5'', 50))))
     = [Some 20] \<and>
   map summary_lastMessageAt (listConversations
     (fst (sendMessage failing_llm three_messages ''c1'' ''Bye'' (''m4'', 40) (''m5'', 50))))
     = [Some 40]"
proof -
  let ?c = "\<lparr>cid = ''c1'', title = ''Conversation #1'', conv_createdAt = 1, lastMessageAt = Some 20\<rparr>"
  let ?d' = "fst (sendMessage failing_llm three_messages ''c1'' ''Bye'' (''m4'', 40) (''m5'', 50))"
  have h1: "conversation_findUnique three_messages ''c1'' = Some ?c"
    by (simp add: conversation_findUnique_def three_messages_def)
  have h2: "failing_llm (conversation_history three_messages ''c1'' ''Bye'') = Inl AbortError"
    by (simp add: failing_llm_def)
  have h3: "\<forall>m\<in>set (messages_of three_messages ''c1''). createdAt m \<le> snd (''m4'', 40::nat)"
    by (simp add: messages_of_def three_messages_def row_def)
  have t: "conversation_table ?d' = conversation_table three_messages \<and>
           (\<exists>v\<in>set (listConversations ?d'). summary_id v = ''c1'') \<and>
           (\<forall>v\<in>set (listConversations ?d').
              summary_id v = ''c1'' \<longrightarrow> summary_lastMessageAt v = Some (snd (''m4'', 40::nat)))"
    using h1 h2 h3
      listed_lastMessageAt_is_newest_message
        [of three_messages "''c1''" ?c failing_llm "''Bye''" AbortError "(''m4'', 40)" "(''m5'', 50)"]
    by blast
  have l: "length (listConversations ?d') = 1"
    using t by (simp add: listConversations_def three_messages_def)
  then obtain v where v: "listConversations ?d' = [v]"
    by (cases "listConversations ?d'") auto
  have "summary_id v = ''c1''" using t v by auto
  then have "summary_lastMessageAt v = Some 40" using t v by auto
  then show ?thesis using h1 t v by (simp add: three_messages_def)
qed

subsection \<open>\<open>sendMessage\<close>\<close>





section \<open>Pagination\<close>

subsection \<open>\<open>sendMessage\<close> keeps the log ordered\<close>

text \<open>
  When the store stamps each new message with a later time and a greater, non-empty
  identifier than the conversation's messages, the log stays ordered and only grows at
  its end.
\<close>

lemma sendMessage_keeps_log_ordered:
  assumes ord: "log_ordered d i"
    and s1: "\<forall>m\<in>set (messages_of d i). createdAt m < snd s1 \<and> mid m < fst s1"
    and s2: "0 < snd s2 \<and> fst s1 < fst s2"
    and ne: "fst s1 \<noteq> [] \<and> fst s2 \<noteq> []"
  shows "log_ordered (fst (sendMessage llmAdapter d i str s1 s2)) i \<and>
         appended d (fst (sendMessage llmAdapter d i str s1 s2))"
proof (cases "conversation_findUnique d i")
  case None
  then show ?thesis using ord by (simp add: sendMessage_def appended_def)
next
  case (Some c)
  let ?u = "\<lparr>role = User, content = str, mid = fst s1, conversationId = i, createdAt = snd s1\<rparr>"
  have srt: "sorted_wrt (\<lambda>a b. createdAt a < createdAt b \<and> mid a < mid b) (messages_of d i)"
    and ids: "list_all (\<lambda>m. mid m \<noteq> []) (messages_of d i)"
    using ord by (simp_all add: log_ordered_def)
  show ?thesis
  proof (cases "llmAdapter (conversation_history d i str)")
    case (Inl e)
    then have "fst (sendMessage llmAdapter d i str s1 s2)
                 = d\<lparr>message_table := message_table d @ [?u]\<rparr>"
      using Some by (simp add: sendMessage_def message_create_def Let_def)
    then show ?thesis
      using srt ids s1 ne
      by (simp add: log_ordered_def messages_of_def appended_def sorted_wrt_append)
  next
    case (Inr completed)
    show ?thesis
    proof (cases completed)
      case None
      then have "fst (sendMessage llmAdapter d i str s1 s2)
                   = d\<lparr>message_table := message_table d @ [?u]\<rparr>"
        using Some Inr by (simp add: sendMessage_def message_create_def Let_def)
      then show ?thesis
        using srt ids s1 ne
        by (simp add: log_ordered_def messages_of_def appended_def sorted_wrt_append)
    next
      case (Some reply)
      let ?a = "\<lparr>role = Assistant, content = reply, mid = fst s2, conversationId = i,
                 createdAt = snd s1 + snd s2\<rparr>"
      have "fst (sendMessage llmAdapter d i str s1 s2)
              = conversation_update_lastMessageAt
                  (d\<lparr>message_table := message_table d @ [?u, ?a]\<rparr>) i (snd s1 + snd s2)"
        using \<open>conversation_findUnique d i = Some c\<close> Inr Some
        by (simp add: sendMessage_def message_create_def Let_def)
      then show ?thesis
        using srt ids s1 s2 ne
        by (auto simp: log_ordered_def messages_of_def appended_def sorted_wrt_append
              conversation_update_lastMessageAt_def)
    qed
  qed
qed

subsection \<open>One page\<close>

lemma ordered_desc_rev:
  assumes "sorted_wrt (\<lambda>a b. createdAt a < createdAt b \<and> mid a < mid b) P"
  shows "orderBy_createdAt_desc P = rev P"
proof -
  have "sorted_wrt (\<lambda>a b. createdAt a < createdAt b) P"
    using assms by (rule sorted_wrt_mono_rel [rotated]) auto
  then have "sort_key createdAt (rev P) = P" by (rule sort_key_rev_strict)
  then show ?thesis by (simp add: orderBy_createdAt_desc_def)
qed

lemma filter_lte_cursor:
  assumes ord: "sorted_wrt (\<lambda>a b. createdAt a < createdAt b \<and> mid a < mid b) C"
    and j: "j < length C"
  shows "filter (\<lambda>m. mid m \<le> mid (C ! j)) C = take (Suc j) C"
proof -
  have lo: "\<forall>m\<in>set (take (Suc j) C). mid m \<le> mid (C ! j)"
  proof
    fix m assume "m \<in> set (take (Suc j) C)"
    then obtain k where k: "k < Suc j" "k < length C" "m = C ! k"
      by (auto simp: in_set_conv_nth)
    show "mid m \<le> mid (C ! j)"
    proof (cases "k = j")
      case True
      then show ?thesis using k by simp
    next
      case False
      then have "k < j" using k by simp
      then have "mid (C ! k) < mid (C ! j)" using sorted_wrt_nth_less [OF ord _ j, of k] by simp
      then show ?thesis using k by (simp add: less_imp_le)
    qed
  qed
  have hi: "\<forall>m\<in>set (drop (Suc j) C). \<not> mid m \<le> mid (C ! j)"
  proof
    fix m assume "m \<in> set (drop (Suc j) C)"
    then obtain k where k: "k < length C - Suc j" "m = C ! (Suc j + k)"
      by (auto simp: in_set_conv_nth)
    have "mid (C ! j) < mid (C ! (Suc j + k))"
      using sorted_wrt_nth_less [OF ord, of j "Suc j + k"] k by simp
    then show "\<not> mid m \<le> mid (C ! j)" using k by simp
  qed
  have a: "filter (\<lambda>m. mid m \<le> mid (C ! j)) (take (Suc j) C) = take (Suc j) C"
    using lo by (simp add: filter_id_conv)
  have b: "filter (\<lambda>m. mid m \<le> mid (C ! j)) (drop (Suc j) C) = []"
    using hi by (simp add: filter_empty_conv)
  have "filter (\<lambda>m. mid m \<le> mid (C ! j)) (take (Suc j) C @ drop (Suc j) C) = take (Suc j) C"
    unfolding filter_append a b by simp
  then show ?thesis by (simp only: append_take_drop_id)
qed

lemma page_of_ordered_rows:
  assumes found: "conversation_findUnique d i = Some c"
    and rows: "filter (\<lambda>m. conversationId m = i \<and> where_lte cursor m) (message_table d) = P"
    and ord: "sorted_wrt (\<lambda>a b. createdAt a < createdAt b \<and> mid a < mid b) P"
  shows "\<exists>page. getConversation d i cursor limit = Inr page \<and>
           page_messages page = map view (drop (length P - limit) P) \<and>
           nextCursor (pageInfo page) =
             (if limit < length P then Some (mid (P ! (length P - limit - 1))) else None)"
proof -
  have desc: "orderBy_createdAt_desc P = rev P"
    by (rule ordered_desc_rev [OF ord])
  have pm: "(if limit < length (take (limit + 1) (rev P))
             then take limit (take (limit + 1) (rev P)) else take (limit + 1) (rev P))
            = take limit (rev P)"
    by (simp add: min_def)
  have rv: "rev (take limit (rev P)) = drop (length P - limit) P"
    by (simp add: rev_take)
  have nx: "limit < length P \<Longrightarrow> take (limit + 1) (rev P) ! limit = P ! (length P - limit - 1)"
    by (simp add: rev_nth)
  have hm: "(limit < length (take (limit + 1) (rev P))) = (limit < length P)"
    by (simp add: min_def)
  show ?thesis
    unfolding getConversation_def rows desc Let_def pm
    using found nx by (simp add: rv hm del: take_Suc_Cons)
qed


lemma rows_of_cursor:
  assumes ms: "messages_of d i = M @ X"
    and ord: "log_ordered d i"
    and j: "j < length M"
  shows "filter (\<lambda>m. conversationId m = i \<and> where_lte (Some (mid (M ! j))) m) (message_table d)
           = take (Suc j) M"
proof -
  have srt: "sorted_wrt (\<lambda>a b. createdAt a < createdAt b \<and> mid a < mid b) (M @ X)"
    and ne: "list_all (\<lambda>m. mid m \<noteq> []) (M @ X)"
    using ord ms by (simp_all add: log_ordered_def)
  have "M ! j \<in> set (M @ X)" using j by simp
  then have c: "mid (M ! j) \<noteq> []" using ne by (simp add: list_all_iff)
  have "filter (\<lambda>m. conversationId m = i \<and> where_lte (Some (mid (M ! j))) m) (message_table d)
          = filter (\<lambda>m. mid m \<le> mid (M ! j)) (messages_of d i)"
    using c by (simp add: messages_of_def where_lte_def)
  also have "\<dots> = filter (\<lambda>m. mid m \<le> mid ((M @ X) ! j)) (M @ X)"
    using j by (simp add: ms nth_append)
  also have "\<dots> = take (Suc j) (M @ X)"
    using j by (intro filter_lte_cursor [OF srt]) simp
  also have "\<dots> = take (Suc j) M" using j by simp
  finally show ?thesis .
qed

lemma follow_from_cursor:
  assumes lim: "1 \<le> limit"
  shows "\<forall>d\<in>set ds. conversation_findUnique d i \<noteq> None \<and> log_ordered d i \<and>
                    (\<exists>X. messages_of d i = M @ X)
         \<Longrightarrow> 0 < k \<Longrightarrow> k \<le> length M \<Longrightarrow> k \<le> length ds * limit
         \<Longrightarrow> \<exists>pages. follow_nextCursor ds i limit (Some (mid (M ! (k - 1)))) = Some pages \<and>
                     concat (rev pages) = map view (take k M) \<and>
                     list_all (\<lambda>p. length p \<le> limit) pages"
proof (induction ds arbitrary: k)
  case Nil
  then show ?case by simp
next
  case (Cons d ds)
  obtain c X where found: "conversation_findUnique d i = Some c"
    and ord: "log_ordered d i" and ms: "messages_of d i = M @ X"
    using Cons.prems(1) by auto
  have j: "k - 1 < length M" using Cons.prems(2,3) by simp
  have rows: "filter (\<lambda>m. conversationId m = i \<and> where_lte (Some (mid (M ! (k - 1)))) m)
                (message_table d) = take k M"
    using rows_of_cursor [OF ms ord j] Cons.prems(2) by simp
  have srt: "sorted_wrt (\<lambda>a b. createdAt a < createdAt b \<and> mid a < mid b) (take k M)"
  proof -
    have "sorted_wrt (\<lambda>a b. createdAt a < createdAt b \<and> mid a < mid b) (M @ X)"
      using ord ms by (simp add: log_ordered_def)
    then have "sorted_wrt (\<lambda>a b. createdAt a < createdAt b \<and> mid a < mid b) M"
      by (simp add: sorted_wrt_append)
    then show ?thesis by (rule sorted_wrt_take)
  qed
  have len: "length (take k M) = k" using Cons.prems(3) by simp
  obtain page where page: "getConversation d i (Some (mid (M ! (k - 1)))) limit = Inr page"
    and msgs: "page_messages page = map view (drop (k - limit) (take k M))"
    and nxt: "nextCursor (pageInfo page) =
               (if limit < k then Some (mid (take k M ! (k - limit - 1))) else None)"
    using page_of_ordered_rows [OF found rows srt, of limit] unfolding len by blast
  have plen: "length (page_messages page) \<le> limit" using msgs len by simp
  show ?case
  proof (cases "limit < k")
    case False
    then show ?thesis using page msgs nxt plen by simp
  next
    case True
    let ?k' = "k - limit"
    have k': "0 < ?k'" "?k' \<le> length M" using True Cons.prems(3) by simp_all
    have fuel: "?k' \<le> length ds * limit" using Cons.prems(4) by simp
    have cur: "take k M ! (k - limit - 1) = M ! (?k' - 1)" using True lim by simp
    obtain pages where rest: "follow_nextCursor ds i limit (Some (mid (M ! (?k' - 1)))) = Some pages"
      and cat: "concat (rev pages) = map view (take ?k' M)"
      and lens: "list_all (\<lambda>p. length p \<le> limit) pages"
      using Cons.IH [OF _ k' fuel] Cons.prems(1) by auto
    have split: "take ?k' M @ drop ?k' (take k M) = take k M"
      by (metis append_take_drop_id diff_le_self min.absorb1 take_take)
    have "follow_nextCursor (d # ds) i limit (Some (mid (M ! (k - 1))))
            = Some (page_messages page # pages)"
      using page nxt True cur rest by simp
    moreover have "concat (rev (page_messages page # pages)) = map view (take k M)"
      using cat msgs split by (simp flip: map_append)
    ultimately show ?thesis using lens plen by simp
  qed
qed


lemma appended_messages_of:
  assumes "appended d0 d"
  shows "\<exists>X. messages_of d i = messages_of d0 i @ X"
proof -
  have "message_table d = message_table d0 @ drop (length (message_table d0)) (message_table d)"
    using assms append_take_drop_id [of "length (message_table d0)" "message_table d"]
    by (simp add: appended_def)
  then have "messages_of d i = messages_of d0 i @
               filter (\<lambda>m. conversationId m = i) (drop (length (message_table d0)) (message_table d))"
    unfolding messages_of_def by (metis filter_append)
  then show ?thesis by blast
qed

text \<open>
  Where the log is ordered, the pages hold every message once. Let the limit be at least
  1, and let the store, at the first call and at each later one, hold the conversation,
  keep its log ordered, and differ from the store of the first call only by messages
  inserted since. Then a client that starts without a cursor and passes each
  \<open>nextCursor\<close> to the next call receives, after at most as many calls as the pages need,
  a last page without \<open>nextCursor\<close>; each page has at most \<open>limit\<close> messages; and the
  pages, laid end to end from the last received to the first, are the messages the
  conversation had at the first call, oldest first.
\<close>

lemma following_nextCursor_yields_every_message:
  assumes lim: "1 \<le> limit"
    and stores: "list_all (\<lambda>d. conversation_findUnique d i \<noteq> None \<and> log_ordered d i \<and>
                              appended d0 d) (d0 # ds)"
    and calls: "length (messages_of d0 i) \<le> (1 + length ds) * limit"
  shows "\<exists>pages. follow_nextCursor (d0 # ds) i limit None = Some pages \<and>
           concat (rev pages) = map view (messages_of d0 i) \<and>
           list_all (\<lambda>p. length p \<le> limit) pages \<and>
           sorted_wrt (\<lambda>a b. view_createdAt a < view_createdAt b \<and> view_id a < view_id b)
             (concat (rev pages))"
proof -
  let ?M = "messages_of d0 i"
  let ?N = "length ?M"
  obtain c where found: "conversation_findUnique d0 i = Some c"
    using stores by auto
  have ord: "log_ordered d0 i" using stores by simp
  have srt: "sorted_wrt (\<lambda>a b. createdAt a < createdAt b \<and> mid a < mid b) ?M"
    using ord by (simp add: log_ordered_def)
  have views: "sorted_wrt (\<lambda>a b. view_createdAt a < view_createdAt b \<and> view_id a < view_id b)
                 (map view ?M)"
    using srt by (simp add: sorted_wrt_map view_def)
  have rows: "filter (\<lambda>m. conversationId m = i \<and> where_lte None m) (message_table d0) = ?M"
    by (simp add: messages_of_def where_lte_def)
  obtain page where page: "getConversation d0 i None limit = Inr page"
    and msgs: "page_messages page = map view (drop (?N - limit) ?M)"
    and nxt: "nextCursor (pageInfo page) =
               (if limit < ?N then Some (mid (?M ! (?N - limit - 1))) else None)"
    using page_of_ordered_rows [OF found rows srt, of limit] by blast
  have plen: "length (page_messages page) \<le> limit" using msgs by simp
  show ?thesis
  proof (cases "limit < ?N")
    case False
    then have "follow_nextCursor (d0 # ds) i limit None = Some [page_messages page]"
      using page nxt by simp
    moreover have "page_messages page = map view ?M" using msgs False by simp
    ultimately show ?thesis using plen views by simp
  next
    case True
    let ?k = "?N - limit"
    have later: "\<forall>d\<in>set ds. conversation_findUnique d i \<noteq> None \<and> log_ordered d i \<and>
                    (\<exists>X. messages_of d i = ?M @ X)"
      using stores appended_messages_of [of d0 _ i] by (auto simp: list_all_iff)
    have k: "0 < ?k" "?k \<le> ?N" using True by simp_all
    have fuel: "?k \<le> length ds * limit" using calls by simp
    have cur: "?N - limit - 1 = ?k - 1" by simp
    obtain pages where rest: "follow_nextCursor ds i limit (Some (mid (?M ! (?k - 1)))) = Some pages"
      and cat: "concat (rev pages) = map view (take ?k ?M)"
      and lens: "list_all (\<lambda>p. length p \<le> limit) pages"
      using follow_from_cursor [OF lim later k fuel] by blast
    have "follow_nextCursor (d0 # ds) i limit None = Some (page_messages page # pages)"
      using page nxt True rest by simp
    moreover have "concat (rev (page_messages page # pages)) = map view ?M"
      using cat msgs by (simp flip: map_append)
    ultimately show ?thesis using lens plen views by simp
  qed
qed

lemma following_nextCursor_on_three_messages:
  "follow_nextCursor [three_messages, four_messages] ''c1'' 2 None
     = Some [map view [row ''m2'' 20 Assistant ''Hi there'', row ''m3'' 30 User ''How are you?''],
             map view [row ''m1'' 10 User ''Hello'']] \<and>
   (\<exists>pages. follow_nextCursor [three_messages, four_messages] ''c1'' 2 None = Some pages \<and>
      concat (rev pages) =
        map view [row ''m1'' 10 User ''Hello'', row ''m2'' 20 Assistant ''Hi there'',
                  row ''m3'' 30 User ''How are you?''])"
proof -
  have h1: "(1::nat) \<le> 2" by simp
  have h2: "list_all (\<lambda>d. conversation_findUnique d ''c1'' \<noteq> None \<and> log_ordered d ''c1'' \<and>
                          appended three_messages d) [three_messages, four_messages]"
    by (simp add: conversation_findUnique_def log_ordered_def messages_of_def appended_def
          three_messages_def four_messages_def row_def)
  have h3: "length (messages_of three_messages ''c1'') \<le> (1 + length [four_messages]) * 2"
    by (simp add: messages_of_def three_messages_def row_def)
  have m: "messages_of three_messages ''c1'' =
             [row ''m1'' 10 User ''Hello'', row ''m2'' 20 Assistant ''Hi there'',
              row ''m3'' 30 User ''How are you?'']"
    by (simp add: messages_of_def three_messages_def row_def)
  have all: "\<exists>pages. follow_nextCursor [three_messages, four_messages] ''c1'' 2 None = Some pages \<and>
      concat (rev pages) =
        map view [row ''m1'' 10 User ''Hello'', row ''m2'' 20 Assistant ''Hi there'',
                  row ''m3'' 30 User ''How are you?'']"
    using following_nextCursor_yields_every_message [OF h1 h2 h3] unfolding m by blast
  have "follow_nextCursor [three_messages, four_messages] ''c1'' 2 None
     = Some [map view [row ''m2'' 20 Assistant ''Hi there'', row ''m3'' 30 User ''How are you?''],
             map view [row ''m1'' 10 User ''Hello'']]"
    by (simp add: getConversation_def conversation_findUnique_def three_messages_def
          four_messages_def row_def where_lte_def where_gt_def orderBy_createdAt_desc_def
          orderBy_createdAt_asc_def view_def Let_def)
  then show ?thesis using all by blast
qed

subsection \<open>Equal timestamps\<close>

text \<open>
  Claim C2, at a conversation whose three messages \<open>m1\<close>, \<open>m2\<close>, \<open>m3\<close> carry one
  timestamp, read with a limit of 2. The rows come in table order, so the first page is
  \<open>m1\<close>, \<open>m2\<close> (presented reversed) and its \<open>nextCursor\<close> is \<open>m3\<close>; the rows with an
  identifier up to \<open>m3\<close> are the same three in the same order, so the call with that
  cursor returns the same page and the same \<open>nextCursor\<close>: \<open>m1\<close> and \<open>m2\<close> are delivered
  again at every call, \<open>m3\<close> never, and no call returns a last page.
\<close>

theorem equal_timestamps_repeat_the_page:
  "map_sum id (\<lambda>page. (map view_id (page_messages page), nextCursor (pageInfo page)))
     (getConversation tied_messages ''c1'' None 2)
     = Inr ([''m2'', ''m1''], Some ''m3'') \<and>
   map_sum id (\<lambda>page. (map view_id (page_messages page), nextCursor (pageInfo page)))
     (getConversation tied_messages ''c1'' (Some ''m3'') 2)
     = Inr ([''m2'', ''m1''], Some ''m3'') \<and>
   follow_nextCursor [tied_messages, tied_messages, tied_messages, tied_messages] ''c1'' 2 None
     = None"
  by (simp add: getConversation_def conversation_findUnique_def tied_messages_def row_def
        where_lte_def where_gt_def orderBy_createdAt_desc_def orderBy_createdAt_asc_def
        view_def Let_def)
end
